theory Spec2Isabelle
  imports Main "HOL-Library.Word"
begin

section \<open>Packet buffers\<close>

text \<open>
  A packet is the byte range \<open>[data, data_end)\<close> handed to a hook: \<open>data\<close> is index 0
  and \<open>data_end\<close> is the length of the list. Header overlays are byte offsets into the
  buffer. Values computed by the programs are natural numbers with the truncation of the C
  type written out. The programs are compiled for a little-endian host, so a 16-bit load
  through a \<open>__u16 *\<close> reads the low byte first, and \<open>bpf_htons\<close> swaps the two bytes.
\<close>

type_synonym byte = "8 word"
type_synonym packet = "byte list"

datatype verdict = XDP_PASS | XDP_DROP | TC_ACT_OK

datatype error = Oob_read nat

definition ld8 :: "packet \<Rightarrow> nat \<Rightarrow> nat" where
  "ld8 p k = unat (p ! k)"

definition ld16 :: "packet \<Rightarrow> nat \<Rightarrow> nat" where
  "ld16 p k = ld8 p k + 256 * ld8 p (k + 1)"

definition ld32 :: "packet \<Rightarrow> nat \<Rightarrow> nat" where
  "ld32 p k = ld16 p k + 65536 * ld16 p (k + 2)"

definition st8 :: "packet \<Rightarrow> nat \<Rightarrow> nat \<Rightarrow> packet" where
  "st8 p k v = p[k := of_nat v]"

definition st16 :: "packet \<Rightarrow> nat \<Rightarrow> nat \<Rightarrow> packet" where
  "st16 p k v = st8 (st8 p k (v mod 256)) (k + 1) (v div 256)"

definition st32 :: "packet \<Rightarrow> nat \<Rightarrow> nat \<Rightarrow> packet" where
  "st32 p k v = st16 (st16 p k (v mod 65536)) (k + 2) (v div 65536)"

text \<open>A load inside an option walk: reading at or beyond \<open>data_end\<close> is an error.\<close>

definition rd :: "packet \<Rightarrow> nat \<Rightarrow> error + nat" where
  "rd p k = (if k < length p then Inr (ld8 p k) else Inl (Oob_read k))"

definition bpf_htons :: "nat \<Rightarrow> nat" where
  "bpf_htons v = (v mod 256) * 256 + (v div 256) mod 256"

definition bpf_ntohs :: "nat \<Rightarrow> nat" where
  "bpf_ntohs v = (v mod 256) * 256 + (v div 256) mod 256"

definition bpf_htonl :: "nat \<Rightarrow> nat" where
  "bpf_htonl v = bpf_htons (v mod 65536) * 65536 + bpf_htons ((v div 65536) mod 65536)"

definition bpf_ntohl :: "nat \<Rightarrow> nat" where
  "bpf_ntohl v = bpf_ntohs (v mod 65536) * 65536 + bpf_ntohs ((v div 65536) mod 65536)"

subsection \<open>Header layout\<close>

text \<open>
  The layouts of \<open>struct ethhdr\<close>, \<open>struct iphdr\<close> and \<open>struct tcphdr\<close> come from the
  kernel headers the programs include: the Ethernet header is 14 bytes with \<open>h_proto\<close>
  at offset 12; the IPv4 header has \<open>ihl\<close> in the low nibble of byte 0, \<open>tot_len\<close> at 2,
  \<open>id\<close> at 4, \<open>ttl\<close> at 8, \<open>protocol\<close> at 9, \<open>check\<close> at 10, \<open>saddr\<close> at 12 and
  \<open>daddr\<close> at 16; the TCP header has \<open>doff\<close> in the high nibble of byte 12, the flags
  in byte 13 (SYN is bit 1, ACK is bit 4), \<open>window\<close> at 14 and \<open>check\<close> at 16. Both
  fixed headers are 20 bytes.
\<close>

abbreviation (input) ETH_HLEN :: nat where "ETH_HLEN \<equiv> 14"
abbreviation (input) ETH_P_IP :: nat where "ETH_P_IP \<equiv> 2048"
abbreviation (input) IPPROTO_TCP :: nat where "IPPROTO_TCP \<equiv> 6"
abbreviation (input) IPPROTO_UDP :: nat where "IPPROTO_UDP \<equiv> 17"

definition ihl :: "packet \<Rightarrow> nat \<Rightarrow> nat" where
  "ihl p iph = ld8 p iph mod 16"

definition doff :: "packet \<Rightarrow> nat \<Rightarrow> nat" where
  "doff p tcph = ld8 p (tcph + 12) div 16"

definition syn :: "packet \<Rightarrow> nat \<Rightarrow> bool" where
  "syn p tcph = ((ld8 p (tcph + 13) div 2) mod 2 = 1)"

definition ack :: "packet \<Rightarrow> nat \<Rightarrow> bool" where
  "ack p tcph = ((ld8 p (tcph + 13) div 16) mod 2 = 1)"

section \<open>tcp\_fingerprint.c\<close>

record tcp_config =
  ttl :: "8 word"
  window_size :: "16 word"
  mss :: "16 word"
  window_scale :: "8 word"
  sack_permitted :: "8 word"
  timestamps :: "8 word"
  timestamp_offset :: "32 word"

text \<open>
  \<open>get_windows_profile\<close> fills six fields of the caller's struct and leaves
  \<open>timestamp_offset\<close> as it was. The caller's struct is an uninitialised local; the
  model starts it from zeroes, and no path reads the field that stays unset.
\<close>

definition uninit_config :: tcp_config where
  "uninit_config =
     \<lparr>ttl = 0, window_size = 0, mss = 0, window_scale = 0, sack_permitted = 0,
      timestamps = 0, timestamp_offset = 0\<rparr>"

definition get_windows_profile :: "tcp_config \<Rightarrow> tcp_config" where
  "get_windows_profile config =
     config\<lparr>ttl := 128, window_size := 65535, mss := 1460, window_scale := 8,
            sack_permitted := 1, timestamps := 0\<rparr>"

text \<open>One round of the loop in \<open>csum_fold_helper\<close>, on a \<open>__u64\<close>.\<close>

definition fold_once :: "nat \<Rightarrow> nat" where
  "fold_once csum =
     (if csum div 65536 \<noteq> 0 then (csum mod 65536 + csum div 65536) mod 2 ^ 64 else csum)"

definition csum_fold_helper :: "nat \<Rightarrow> nat" where
  "csum_fold_helper csum =
     65535 - fold_once (fold_once (fold_once (fold_once (csum mod 2 ^ 64)))) mod 65536"

text \<open>\<open>csum += *ptr++\<close>, repeated \<open>n\<close> times on a \<open>__u32\<close> accumulator.\<close>

fun sum_words :: "packet \<Rightarrow> nat \<Rightarrow> nat \<Rightarrow> nat \<Rightarrow> nat" where
  "sum_words p ptr 0 csum = csum"
| "sum_words p ptr (Suc n) csum = sum_words p (ptr + 2) n ((csum + ld16 p ptr) mod 2 ^ 32)"

definition update_ip_checksum :: "packet \<Rightarrow> nat \<Rightarrow> packet" where
  "update_ip_checksum p iph =
     (let p1 = st16 p (iph + 10) 0;
          csum = sum_words p1 iph 10 0
      in st16 p1 (iph + 10) (csum_fold_helper csum))"

text \<open>The loop over the first ten words of the TCP header, leaving at \<open>data_end\<close>.\<close>

fun tcp_sum_words :: "packet \<Rightarrow> nat \<Rightarrow> nat \<Rightarrow> nat \<Rightarrow> nat" where
  "tcp_sum_words p ptr 0 csum = csum"
| "tcp_sum_words p ptr (Suc n) csum =
     (if ptr + 2 > length p then csum
      else tcp_sum_words p (ptr + 2) n ((csum + ld16 p ptr) mod 2 ^ 32))"

definition pseudo_header_sum :: "packet \<Rightarrow> nat \<Rightarrow> nat" where
  "pseudo_header_sum p iph =
     (let tcp_len = (bpf_ntohs (ld16 p (iph + 2)) + 2 ^ 32 - ihl p iph * 4) mod 2 ^ 32;
          saddr = ld32 p (iph + 12);
          daddr = ld32 p (iph + 16);
          csum = 0;
          csum = (csum + (saddr div 65536) mod 65536) mod 2 ^ 32;
          csum = (csum + saddr mod 65536) mod 2 ^ 32;
          csum = (csum + (daddr div 65536) mod 65536) mod 2 ^ 32;
          csum = (csum + daddr mod 65536) mod 2 ^ 32;
          csum = (csum + bpf_htons IPPROTO_TCP) mod 2 ^ 32;
          csum = (csum + bpf_htons (tcp_len mod 65536)) mod 2 ^ 32
      in csum)"

definition update_tcp_checksum :: "packet \<Rightarrow> nat \<Rightarrow> nat \<Rightarrow> packet" where
  "update_tcp_checksum p iph tcph =
     (let csum = pseudo_header_sum p iph;
          p1 = st16 p (tcph + 16) 0;
          csum = tcp_sum_words p1 tcph 10 csum
      in st16 p1 (tcph + 16) (csum_fold_helper csum))"

text \<open>
  The timestamp walk of \<open>tcp_fingerprint_xdp\<close>: \<open>opts\<close> is the offset of the options,
  \<open>tcp_hdr_len\<close> the \<open>__u8\<close> header length (above 20 here), \<open>i\<close> the loop variable.
\<close>

function ts_loop :: "tcp_config \<Rightarrow> nat \<Rightarrow> nat \<Rightarrow> packet \<Rightarrow> nat \<Rightarrow> error + packet" where
  "ts_loop config opts tcp_hdr_len p i =
     (if i < 40 \<and> opts + i < opts + (tcp_hdr_len - 20) then
        (if \<not> opts + i < length p then Inl (Oob_read (opts + i))
         else if ld8 p (opts + i) = 0 then Inr p
         else if ld8 p (opts + i) = 1 then ts_loop config opts tcp_hdr_len p (i + 1)
         else if ld8 p (opts + i) = 8 \<and> i + 9 < tcp_hdr_len - 20 then
           (let tsval = opts + i + 2 in
            if tsval + 4 \<le> length p then
              Inr (st32 p tsval
                     (bpf_htonl ((bpf_ntohl (ld32 p tsval) + unat (timestamp_offset config))
                                 mod 2 ^ 32)))
            else Inr p)
         else if \<not> opts + i + 1 < length p then Inl (Oob_read (opts + i + 1))
         else
           (let opt_len = ld8 p (opts + i + 1) in
            if opt_len < 2 then Inr p
            else ts_loop config opts tcp_hdr_len p (i + (opt_len - 1) + 1)))
      else Inr p)"
  by pat_completeness auto
termination
  by (relation "measure (\<lambda>(config, opts, tcp_hdr_len, p, i). 40 - i)") auto

declare ts_loop.simps [simp del]

definition timestamp_randomization :: "tcp_config \<Rightarrow> nat \<Rightarrow> packet \<Rightarrow> error + packet" where
  "timestamp_randomization config tcph p =
     (if unat (timestamp_offset config) \<noteq> 0 then
        (let tcp_hdr_len = (doff p tcph * 4) mod 256 in
         if tcp_hdr_len > 20 then
           (let opts = tcph + 20; opts_end = tcph + tcp_hdr_len in
            if opts_end \<le> length p then ts_loop config opts tcp_hdr_len p 0 else Inr p)
         else Inr p)
      else Inr p)"

function mss_loop :: "tcp_config \<Rightarrow> nat \<Rightarrow> nat \<Rightarrow> packet \<Rightarrow> nat \<Rightarrow> error + packet" where
  "mss_loop config opts2 tcp_hdr_len2 p j =
     (if j < 40 \<and> opts2 + j < opts2 + (tcp_hdr_len2 - 20) then
        (if \<not> opts2 + j < length p then Inl (Oob_read (opts2 + j))
         else if ld8 p (opts2 + j) = 0 then Inr p
         else if ld8 p (opts2 + j) = 1 then mss_loop config opts2 tcp_hdr_len2 p (j + 1)
         else if ld8 p (opts2 + j) = 2 \<and> j + 3 < tcp_hdr_len2 - 20 then
           (let mss_val = opts2 + j + 2 in
            if mss_val + 2 \<le> length p then
              (let current_mss = bpf_ntohs (ld16 p mss_val) in
               if current_mss < unat (mss config)
               then Inr (st16 p mss_val (bpf_htons (unat (mss config))))
               else Inr p)
            else Inr p)
         else if \<not> opts2 + j + 1 < length p then Inl (Oob_read (opts2 + j + 1))
         else
           (let opt_len2 = ld8 p (opts2 + j + 1) in
            if opt_len2 < 2 then Inr p
            else mss_loop config opts2 tcp_hdr_len2 p (j + (opt_len2 - 1) + 1)))
      else Inr p)"
  by pat_completeness auto
termination
  by (relation "measure (\<lambda>(config, opts2, tcp_hdr_len2, p, j). 40 - j)") auto

declare mss_loop.simps [simp del]

definition mss_clamping :: "tcp_config \<Rightarrow> nat \<Rightarrow> packet \<Rightarrow> error + packet" where
  "mss_clamping config tcph p =
     (if syn p tcph \<and> unat (mss config) > 0 then
        (let tcp_hdr_len2 = (doff p tcph * 4) mod 256 in
         if tcp_hdr_len2 > 20 then
           (let opts2 = tcph + 20; opts2_end = tcph + tcp_hdr_len2 in
            if opts2_end \<le> length p then mss_loop config opts2 tcp_hdr_len2 p 0 else Inr p)
         else Inr p)
      else Inr p)"

text \<open>The two branches on the result of the configuration lookup.\<close>

definition apply_default :: "nat \<Rightarrow> nat \<Rightarrow> packet \<Rightarrow> packet" where
  "apply_default iph tcph p =
     (let default_config = get_windows_profile uninit_config;
          p = st8 p (iph + 8) (unat (ttl default_config))
      in if syn p tcph \<and> \<not> ack p tcph
         then st16 p (tcph + 14) (bpf_htons (unat (window_size default_config)))
         else p)"

definition apply_config :: "tcp_config \<Rightarrow> nat \<Rightarrow> nat \<Rightarrow> packet \<Rightarrow> error + packet" where
  "apply_config config iph tcph p =
     (let p = st8 p (iph + 8) (unat (ttl config));
          p = (if syn p tcph \<and> \<not> ack p tcph
               then st16 p (tcph + 14) (bpf_htons (unat (window_size config)))
               else p)
      in case timestamp_randomization config tcph p of
           Inl e \<Rightarrow> Inl e
         | Inr p \<Rightarrow> mss_clamping config tcph p)"

definition tcp_fingerprint_xdp :: "tcp_config option \<Rightarrow> packet \<Rightarrow> error + verdict \<times> packet" where
  "tcp_fingerprint_xdp config p =
     (let data_end = length p; eth = 0 in
      if eth + ETH_HLEN > data_end then Inr (XDP_PASS, p)
      else if ld16 p (eth + 12) \<noteq> bpf_htons ETH_P_IP then Inr (XDP_PASS, p)
      else
        (let iph = eth + ETH_HLEN in
         if iph + 20 > data_end then Inr (XDP_PASS, p)
         else if ld8 p (iph + 9) \<noteq> IPPROTO_TCP then Inr (XDP_PASS, p)
         else
           (let tcph = iph + ihl p iph * 4 in
            if tcph + 20 > data_end then Inr (XDP_PASS, p)
            else
              (case (case config of
                       None \<Rightarrow> Inr (apply_default iph tcph p)
                     | Some c \<Rightarrow> apply_config c iph tcph p) of
                 Inl e \<Rightarrow> Inl e
               | Inr p1 \<Rightarrow>
                   Inr (XDP_PASS,
                        update_tcp_checksum (update_ip_checksum p1 iph) iph tcph)))))"

text \<open>
  The kernel's checksum helpers, as \<open>net/core/filter.c\<close> and \<open>include/net/checksum.h\<close>
  implement them for a packet whose checksum is not offloaded. \<open>bpf_l3_csum_replace\<close>
  works on a 16-bit sum with end-around carry, \<open>bpf_l4_csum_replace\<close> on a 32-bit one;
  both leave the packet alone when the two bytes at \<open>offset\<close> are not inside it, and
  neither moves the buffer, so the pointers a program fetches again address the same bytes.
\<close>

definition csum16_add :: "nat \<Rightarrow> nat \<Rightarrow> nat" where
  "csum16_add csum addend =
     (let res = (csum + addend) mod 65536 in (res + (if res < addend then 1 else 0)) mod 65536)"

definition csum_replace2 :: "nat \<Rightarrow> nat \<Rightarrow> nat \<Rightarrow> nat" where
  "csum_replace2 sm old new =
     65535 - csum16_add (csum16_add (65535 - sm) (65535 - old)) new"

definition csum_add :: "nat \<Rightarrow> nat \<Rightarrow> nat" where
  "csum_add csum addend =
     (let res = (csum + addend) mod 2 ^ 32 in (res + (if res < addend then 1 else 0)) mod 2 ^ 32)"

definition csum_fold :: "nat \<Rightarrow> nat" where
  "csum_fold csum =
     (let sm = csum;
          sm = (sm mod 65536 + sm div 65536) mod 2 ^ 32;
          sm = (sm mod 65536 + sm div 65536) mod 2 ^ 32
      in 65535 - sm mod 65536)"

definition csum_replace4 :: "nat \<Rightarrow> nat \<Rightarrow> nat \<Rightarrow> nat" where
  "csum_replace4 sm from to =
     (let tmp = csum_add (2 ^ 32 - 1 - sm) (2 ^ 32 - 1 - from)
      in csum_fold (csum_add tmp to))"

definition csum_replace_by_diff :: "nat \<Rightarrow> nat \<Rightarrow> nat" where
  "csum_replace_by_diff sm diff = csum_fold (csum_add diff (2 ^ 32 - 1 - sm))"

definition bpf_l3_csum_replace :: "packet \<Rightarrow> nat \<Rightarrow> nat \<Rightarrow> nat \<Rightarrow> nat \<Rightarrow> packet" where
  "bpf_l3_csum_replace skb offset from to flags =
     (if offset + 2 > length skb then skb
      else if flags = 0 then
        (if from \<noteq> 0 then skb
         else st16 skb offset (csum_replace_by_diff (ld16 skb offset) to))
      else if flags = 2 then
        st16 skb offset (csum_replace2 (ld16 skb offset) (from mod 65536) (to mod 65536))
      else skb)"

definition bpf_l4_csum_replace :: "packet \<Rightarrow> nat \<Rightarrow> nat \<Rightarrow> nat \<Rightarrow> nat \<Rightarrow> packet" where
  "bpf_l4_csum_replace skb offset from to flags =
     (if offset + 2 > length skb then skb
      else if flags = 0 then
        (if from \<noteq> 0 then skb
         else st16 skb offset (csum_replace_by_diff (ld16 skb offset) to))
      else if flags = 2 then
        st16 skb offset (csum_replace4 (ld16 skb offset) (from mod 65536) (to mod 65536))
      else skb)"

definition tcp_fingerprint_tc :: "tcp_config option \<Rightarrow> packet \<Rightarrow> verdict \<times> packet" where
  "tcp_fingerprint_tc config skb =
     (let data_end = length skb; eth = 0 in
      if eth + ETH_HLEN > data_end then (TC_ACT_OK, skb)
      else if ld16 skb (eth + 12) \<noteq> bpf_htons ETH_P_IP then (TC_ACT_OK, skb)
      else
        (let iph = eth + ETH_HLEN in
         if iph + 20 > data_end then (TC_ACT_OK, skb)
         else if ld8 skb (iph + 9) \<noteq> IPPROTO_TCP then (TC_ACT_OK, skb)
         else
           (let tcph = iph + ihl skb iph * 4 in
            if tcph + 20 > data_end then (TC_ACT_OK, skb)
            else
              (case config of
                 None \<Rightarrow> (TC_ACT_OK, skb)
               | Some config \<Rightarrow>
                   (let skb = st8 skb (iph + 8) (unat (ttl config));
                        skb = (if syn skb tcph
                               then st16 skb (tcph + 14) (bpf_htons (unat (window_size config)))
                               else skb)
                    in (TC_ACT_OK, bpf_l3_csum_replace skb (ETH_HLEN + 10) 0 0 0))))))"

section \<open>network\_shield\_original.c\<close>

abbreviation (input) PERSONA_LINUX :: nat where "PERSONA_LINUX \<equiv> 0"
abbreviation (input) PERSONA_WINDOWS :: nat where "PERSONA_WINDOWS \<equiv> 1"
abbreviation (input) PERSONA_MACOS :: nat where "PERSONA_MACOS \<equiv> 2"

text \<open>
  The C variable \<open>sum\<close> is \<open>sm\<close> below, and the field \<open>ttl\<close> of
  \<open>struct os_signature\<close> is \<open>sig_ttl\<close>.
\<close>

record os_signature =
  sig_ttl :: "8 word"
  tcp_window :: "16 word"
  tcp_mss :: "16 word"
  tcp_sack_permitted :: "8 word"
  tcp_timestamps :: "8 word"
  tcp_window_scale :: "8 word"

definition signatures :: "os_signature list" where
  "signatures =
     [\<lparr>sig_ttl = 64, tcp_window = 29200, tcp_mss = 1460, tcp_sack_permitted = 1,
       tcp_timestamps = 1, tcp_window_scale = 7\<rparr>,
      \<lparr>sig_ttl = 128, tcp_window = 65535, tcp_mss = 1460, tcp_sack_permitted = 1,
       tcp_timestamps = 0, tcp_window_scale = 8\<rparr>,
      \<lparr>sig_ttl = 64, tcp_window = 65535, tcp_mss = 1460, tcp_sack_permitted = 1,
       tcp_timestamps = 1, tcp_window_scale = 6\<rparr>]"

text \<open>The loop of \<open>ip_checksum\<close>: ten rounds, each adding word \<open>i\<close> when \<open>i * 2 < len\<close>.\<close>

fun ip_sum_words :: "packet \<Rightarrow> nat \<Rightarrow> nat \<Rightarrow> nat \<Rightarrow> nat \<Rightarrow> nat \<Rightarrow> nat" where
  "ip_sum_words p iph len i 0 sm = sm"
| "ip_sum_words p iph len i (Suc n) sm =
     ip_sum_words p iph len (i + 1) n
       (if i * 2 < len then (sm + ld16 p (iph + 2 * i)) mod 2 ^ 32 else sm)"

text \<open>\<open>while (sum >> 16) sum = (sum & 0xFFFF) + (sum >> 16);\<close> on a \<open>__u32\<close>.\<close>

function fold_while :: "nat \<Rightarrow> nat" where
  "fold_while sm =
     (if sm div 65536 \<noteq> 0 then fold_while ((sm mod 65536 + sm div 65536) mod 2 ^ 32)
      else sm)"
  by pat_completeness auto
termination
proof (relation "measure (\<lambda>sm. sm)")
  show "wf (measure (\<lambda>sm. sm))" by simp
next
  fix sm :: nat
  assume nz: "sm div 65536 \<noteq> 0"
  define d m where "d = sm div 65536" and "m = sm mod 65536"
  have "sm = 65536 * d + m" by (simp add: d_def m_def)
  moreover have "d \<noteq> 0" using nz by (simp add: d_def)
  ultimately have "m + d < sm" by linarith
  then have "sm mod 65536 + sm div 65536 < sm" by (simp add: d_def m_def)
  moreover have "(sm mod 65536 + sm div 65536) mod 2 ^ 32 \<le> sm mod 65536 + sm div 65536"
    by (rule mod_less_eq_dividend)
  ultimately have "(sm mod 65536 + sm div 65536) mod 2 ^ 32 < sm"
    by (rule le_less_trans [rotated])
  then show "((sm mod 65536 + sm div 65536) mod 2 ^ 32, sm) \<in> measure (\<lambda>sm. sm)"
    by simp
qed

declare fold_while.simps [simp del]

text \<open>\<open>ip_checksum\<close> zeroes the stored checksum and returns the new value.\<close>

definition ip_checksum :: "packet \<Rightarrow> nat \<Rightarrow> packet \<times> nat" where
  "ip_checksum p iph =
     (let len = ihl p iph * 4;
          p = st16 p (iph + 10) 0;
          sm = ip_sum_words p iph len 0 10 0;
          sm = fold_while sm
      in (p, 65535 - sm mod 65536))"

text \<open>The incremental \<open>update_tcp_checksum\<close> of this file.\<close>

definition update_tcp_checksum_incr :: "packet \<Rightarrow> nat \<Rightarrow> nat \<Rightarrow> nat \<Rightarrow> packet" where
  "update_tcp_checksum_incr p tcph old_val new_val =
     (let sm = 65535 - bpf_ntohs (ld16 p (tcph + 16));
          sm = (sm + (65535 - old_val)) mod 2 ^ 32;
          sm = (sm + new_val) mod 2 ^ 32;
          sm = fold_while sm
      in st16 p (tcph + 16) (bpf_htons (65535 - sm mod 65536)))"

text \<open>The lookup of the active persona and its bounds check.\<close>

definition resolve_persona :: "32 word option \<Rightarrow> nat" where
  "resolve_persona persona_ptr =
     (let persona = (case persona_ptr of Some v \<Rightarrow> unat v | None \<Rightarrow> PERSONA_LINUX)
      in if persona > PERSONA_MACOS then PERSONA_LINUX else persona)"

definition modify_ttl :: "os_signature \<Rightarrow> nat \<Rightarrow> packet \<Rightarrow> packet" where
  "modify_ttl sig iph p =
     (if ld8 p (iph + 8) \<noteq> unat (sig_ttl sig) then
        (let p = st8 p (iph + 8) (unat (sig_ttl sig));
             (p, check) = ip_checksum p iph
         in st16 p (iph + 10) check)
      else p)"

definition modify_window :: "os_signature \<Rightarrow> nat \<Rightarrow> packet \<Rightarrow> packet" where
  "modify_window sig tcph p =
     (if syn p tcph \<and> \<not> ack p tcph then
        (let old_window = ld16 p (tcph + 14);
             new_window = bpf_htons (unat (tcp_window sig))
         in if old_window \<noteq> new_window then
              update_tcp_checksum_incr (st16 p (tcph + 14) new_window) tcph
                (bpf_ntohs old_window) (bpf_ntohs new_window)
            else p)
      else p)"

definition network_shield_xdp :: "32 word option \<Rightarrow> packet \<Rightarrow> verdict \<times> packet" where
  "network_shield_xdp persona_ptr p =
     (let data_end = length p; eth = 0 in
      if eth + ETH_HLEN > data_end then (XDP_PASS, p)
      else if ld16 p (eth + 12) \<noteq> bpf_htons ETH_P_IP then (XDP_PASS, p)
      else
        (let iph = eth + ETH_HLEN in
         if iph + 20 > data_end then (XDP_PASS, p)
         else
           (let sig = signatures ! resolve_persona persona_ptr;
                p = modify_ttl sig iph p
            in if ld8 p (iph + 9) = IPPROTO_TCP then
                 (let tcph = iph + ihl p iph * 4 in
                  if tcph + 20 > data_end then (XDP_PASS, p)
                  else (XDP_PASS, modify_window sig tcph p))
               else (XDP_PASS, p))))"

definition network_shield_tc :: "32 word option \<Rightarrow> packet \<Rightarrow> verdict \<times> packet" where
  "network_shield_tc persona_ptr skb =
     (let data_end = length skb; eth = 0 in
      if eth + ETH_HLEN > data_end then (TC_ACT_OK, skb)
      else if ld16 skb (eth + 12) \<noteq> bpf_htons ETH_P_IP then (TC_ACT_OK, skb)
      else
        (let iph = eth + ETH_HLEN in
         if iph + 20 > data_end then (TC_ACT_OK, skb)
         else (TC_ACT_OK, modify_ttl (signatures ! resolve_persona persona_ptr) iph skb)))"

section \<open>xdp\_outbound.c\<close>

definition xdp_outbound_masking :: "packet \<Rightarrow> verdict \<times> packet" where
  "xdp_outbound_masking p =
     (let data_end = length p; eth = 0; ip = eth + ETH_HLEN in
      if ip + 20 > data_end then (XDP_PASS, p)
      else if ld16 p (eth + 12) \<noteq> bpf_htons ETH_P_IP then (XDP_PASS, p)
      else
        (let p = st8 p (ip + 8) 64;
             p = st16 p (ip + 4) 0
         in if ld8 p (ip + 9) = IPPROTO_TCP \<and> ip + 20 + 20 > data_end then (XDP_PASS, p)
            else (XDP_PASS, st16 p (ip + 10) 0)))"

section \<open>network\_shield\_v6.c\<close>

abbreviation (input) TCPOPT_EOL :: nat where "TCPOPT_EOL \<equiv> 0"
abbreviation (input) TCPOPT_NOP :: nat where "TCPOPT_NOP \<equiv> 1"
abbreviation (input) TCPOPT_MSS :: nat where "TCPOPT_MSS \<equiv> 2"
abbreviation (input) TCPOPT_WSCALE :: nat where "TCPOPT_WSCALE \<equiv> 3"

record titan_config =
  quic_proxy_enabled :: "8 word"
  tcp_fingerprint_enabled :: "8 word"
  dns_protection_enabled :: "8 word"
  webrtc_block_enabled :: "8 word"
  proxy_ip :: "32 word"
  proxy_port :: "16 word"
  os_profile :: "8 word"
  reserved :: "8 word"
  dns_server_1 :: "32 word"
  dns_server_2 :: "32 word"

text \<open>
  The fields \<open>ttl\<close>, \<open>window_size\<close>, \<open>window_scale\<close>, \<open>mss\<close> and \<open>timestamps\<close> of
  \<open>struct os_tcp_profile\<close> carry the prefix \<open>prof_\<close> here.
\<close>

record os_tcp_profile =
  prof_ttl :: "8 word"
  prof_window_size :: "16 word"
  prof_window_scale :: "8 word"
  prof_mss :: "16 word"
  sack_ok :: "8 word"
  prof_timestamps :: "8 word"
  nop_count :: "8 word"
  opt_order :: "8 word list"
  opt_count :: "8 word"

text \<open>
  \<open>titan_os_profiles\<close> is a \<open>BPF_MAP_TYPE_ARRAY\<close> with four entries. The kernel's
  lookup in an array map returns the slot for a key below \<open>max_entries\<close> and \<open>NULL\<close>
  for any other key; the content of the slots is the map's state, written by user space.
\<close>

abbreviation (input) titan_os_profiles_max_entries :: nat where "titan_os_profiles_max_entries \<equiv> 4"

definition get_os_profile :: "(nat \<Rightarrow> os_tcp_profile) \<Rightarrow> 8 word \<Rightarrow> os_tcp_profile option" where
  "get_os_profile titan_os_profiles profile_id =
     (let key = unat profile_id
      in if key < titan_os_profiles_max_entries then Some (titan_os_profiles key) else None)"

text \<open>
  The steps of the option walk of \<open>titan_tc_egress\<close>. A step yields \<open>Inl\<close> of the
  buffer when the program leaves (\<open>return TC_ACT_OK\<close> or \<open>goto done\<close>), and \<open>Inr\<close> of
  the buffer with the current \<open>opts\<close> and \<open>opts_end\<close> when the walk goes on.
\<close>

definition rewrite_mss ::
  "os_tcp_profile \<Rightarrow> nat \<Rightarrow> nat \<Rightarrow> nat \<Rightarrow> nat \<Rightarrow> packet \<times> nat \<times> nat
     \<Rightarrow> packet + packet \<times> nat \<times> nat" where
  "rewrite_mss os_prof tcp_hdr_len i kind len st =
     (case st of (skb, opts, opts_end) \<Rightarrow>
        if kind = TCPOPT_MSS \<and> len = 4 \<and> opts + i + 3 < opts_end then
          (let old_mss = (ld8 skb (opts + i + 2) * 256 + ld8 skb (opts + i + 3)) mod 65536;
               new_mss = unat (prof_mss os_prof)
           in if old_mss \<noteq> new_mss then
                (let skb = bpf_l4_csum_replace skb (ETH_HLEN + ihl skb ETH_HLEN * 4 + 16)
                             (bpf_htons old_mss) (bpf_htons new_mss) 2;
                     data_end = length skb
                 in if ETH_HLEN > data_end then Inl skb
                    else if ETH_HLEN + 20 > data_end then Inl skb
                    else
                      (let tcp = ETH_HLEN + ihl skb ETH_HLEN * 4 in
                       if tcp + 20 > data_end then Inl skb
                       else
                         (let opts = tcp + 20; opts_end = tcp + tcp_hdr_len in
                          if opts_end > data_end then Inl skb
                          else
                            Inr (st8 (st8 skb (opts + i + 2) ((new_mss div 256) mod 256))
                                   (opts + i + 3) (new_mss mod 256),
                                 opts, opts_end))))
              else Inr (skb, opts, opts_end))
        else Inr (skb, opts, opts_end))"

definition rewrite_wscale ::
  "os_tcp_profile \<Rightarrow> nat \<Rightarrow> nat \<Rightarrow> nat \<Rightarrow> packet \<times> nat \<times> nat
     \<Rightarrow> packet + packet \<times> nat \<times> nat" where
  "rewrite_wscale os_prof i kind len st =
     (case st of (skb, opts, opts_end) \<Rightarrow>
        if kind = TCPOPT_WSCALE \<and> len = 3 \<and> opts + i + 2 < opts_end then
          (let old_scale = ld8 skb (opts + i + 2);
               new_scale = unat (prof_window_scale os_prof)
           in if old_scale \<noteq> new_scale then
                (let skb = st8 skb (opts + i + 2) new_scale;
                     skb = bpf_l4_csum_replace skb (ETH_HLEN + ihl skb ETH_HLEN * 4 + 16)
                             (bpf_htons old_scale) (bpf_htons new_scale) 2;
                     data_end = length skb
                 in if ETH_HLEN + 40 > data_end then Inl skb
                    else Inr (skb, opts, opts_end))
              else Inr (skb, opts, opts_end))
        else Inr (skb, opts, opts_end))"

function egress_loop ::
  "os_tcp_profile \<Rightarrow> nat \<Rightarrow> packet \<times> nat \<times> nat \<Rightarrow> nat \<Rightarrow> packet" where
  "egress_loop os_prof tcp_hdr_len st i =
     (case st of (skb, opts, opts_end) \<Rightarrow>
        if \<not> i < 40 then skb
        else if opts + i \<ge> opts_end then skb
        else if ld8 skb (opts + i) = TCPOPT_EOL then skb
        else if ld8 skb (opts + i) = TCPOPT_NOP then egress_loop os_prof tcp_hdr_len st (i + 1)
        else if opts + i + 1 \<ge> opts_end then skb
        else if ld8 skb (opts + i + 1) < 2 \<or> opts + i + ld8 skb (opts + i + 1) > opts_end
        then skb
        else
          (case rewrite_mss os_prof tcp_hdr_len i (ld8 skb (opts + i))
                  (ld8 skb (opts + i + 1)) st of
             Inl skb' \<Rightarrow> skb'
           | Inr st' \<Rightarrow>
               (case rewrite_wscale os_prof i (ld8 skb (opts + i))
                       (ld8 skb (opts + i + 1)) st' of
                  Inl skb' \<Rightarrow> skb'
                | Inr st'' \<Rightarrow>
                    egress_loop os_prof tcp_hdr_len st''
                      (i + (ld8 skb (opts + i + 1) - 1) + 1))))"
  by pat_completeness auto
termination
  by (relation "measure (\<lambda>(os_prof, tcp_hdr_len, st, i). 40 - i)") auto

declare egress_loop.simps [simp del]

definition rewrite_ttl :: "os_tcp_profile \<Rightarrow> packet \<Rightarrow> packet + packet" where
  "rewrite_ttl os_prof skb =
     (let ip = ETH_HLEN;
          old_ttl = ld8 skb (ip + 8);
          new_ttl = unat (prof_ttl os_prof)
      in if old_ttl \<noteq> new_ttl then
           (let skb = bpf_l3_csum_replace skb (ETH_HLEN + 10)
                        (bpf_htons old_ttl) (bpf_htons new_ttl) 2;
                data_end = length skb
            in if ETH_HLEN > data_end then Inl skb
               else if ETH_HLEN + 20 > data_end then Inl skb
               else Inr (st8 skb (ETH_HLEN + 8) new_ttl))
         else Inr skb)"

definition rewrite_window :: "os_tcp_profile \<Rightarrow> packet \<Rightarrow> packet + packet" where
  "rewrite_window os_prof skb =
     (let tcp = ETH_HLEN + ihl skb ETH_HLEN * 4;
          old_win = ld16 skb (tcp + 14);
          new_win = bpf_htons (unat (prof_window_size os_prof))
      in if old_win \<noteq> new_win then
           (let skb = bpf_l4_csum_replace skb (ETH_HLEN + ihl skb ETH_HLEN * 4 + 16)
                        old_win new_win 2;
                data_end = length skb
            in if ETH_HLEN > data_end then Inl skb
               else if ETH_HLEN + 20 > data_end then Inl skb
               else
                 (let tcp = ETH_HLEN + ihl skb ETH_HLEN * 4 in
                  if tcp + 20 > data_end then Inl skb
                  else Inr (st16 skb (tcp + 14) new_win)))
         else Inr skb)"

definition rewrite_syn :: "os_tcp_profile \<Rightarrow> packet \<Rightarrow> packet" where
  "rewrite_syn os_prof skb =
     (case rewrite_window os_prof skb of
        Inl skb \<Rightarrow> skb
      | Inr skb \<Rightarrow>
          (let tcp = ETH_HLEN + ihl skb ETH_HLEN * 4;
               tcp_hdr_len = (doff skb tcp * 4) mod 256
           in if tcp_hdr_len \<le> 20 then skb
              else
                (let opts = tcp + 20; opts_end = tcp + tcp_hdr_len in
                 if opts_end > length skb then skb
                 else egress_loop os_prof tcp_hdr_len (skb, opts, opts_end) 0)))"

definition titan_tc_egress ::
  "titan_config option \<Rightarrow> (nat \<Rightarrow> os_tcp_profile) \<Rightarrow> packet \<Rightarrow> verdict \<times> packet" where
  "titan_tc_egress cfg titan_os_profiles skb =
     (case cfg of
        None \<Rightarrow> (TC_ACT_OK, skb)
      | Some cfg \<Rightarrow>
          (let data_end = length skb; eth = 0 in
           if tcp_fingerprint_enabled cfg = 0 then (TC_ACT_OK, skb)
           else if eth + ETH_HLEN > data_end then (TC_ACT_OK, skb)
           else if ld16 skb (eth + 12) \<noteq> bpf_htons ETH_P_IP then (TC_ACT_OK, skb)
           else if eth + ETH_HLEN + 20 > data_end then (TC_ACT_OK, skb)
           else if ld8 skb (eth + ETH_HLEN + 9) \<noteq> IPPROTO_TCP then (TC_ACT_OK, skb)
           else
             (case get_os_profile titan_os_profiles (os_profile cfg) of
                None \<Rightarrow> (TC_ACT_OK, skb)
              | Some os_prof \<Rightarrow>
                  (case rewrite_ttl os_prof skb of
                     Inl skb \<Rightarrow> (TC_ACT_OK, skb)
                   | Inr skb \<Rightarrow>
                       (let tcp = ETH_HLEN + ihl skb ETH_HLEN * 4 in
                        if tcp + 20 > length skb then (TC_ACT_OK, skb)
                        else if syn skb tcp then (TC_ACT_OK, rewrite_syn os_prof skb)
                        else (TC_ACT_OK, skb))))))"

section \<open>Frames and sample packets\<close>

text \<open>\<open>unchanged_outside S p q\<close>: the buffers have one length and differ at most at offsets in \<open>S\<close>.\<close>

definition unchanged_outside :: "nat set \<Rightarrow> packet \<Rightarrow> packet \<Rightarrow> bool" where
  "unchanged_outside S p q = (length q = length p \<and> (\<forall>k. k \<notin> S \<longrightarrow> q ! k = p ! k))"

text \<open>
  Sample frames: Ethernet, IPv4 from 192.168.0.2 to 93.184.216.34, TCP from port 50000
  to port 443, with correct IPv4 and TCP checksums.
\<close>

definition syn_ttl128 :: packet where
  "syn_ttl128 =
     [0, 17, 34, 51, 68, 85, 102, 119, 136, 153, 170, 187, 8, 0,
      69, 0, 0, 40, 28, 70, 64, 0, 128, 6, 232, 4, 192, 168, 0, 2, 93, 184, 216, 34,
      195, 80, 1, 187, 1, 2, 3, 4, 0, 0, 0, 0, 80, 2, 114, 16, 126, 59, 0, 0]"

definition truncated_tcp :: packet where
  "truncated_tcp =
     [0, 17, 34, 51, 68, 85, 102, 119, 136, 153, 170, 187, 8, 0,
      69, 0, 0, 40, 28, 70, 64, 0, 128, 6, 232, 4, 192, 168, 0, 2, 93, 184, 216, 34,
      195, 80, 1, 187, 1, 2, 3, 4, 0, 0]"

definition syn_ack :: packet where
  "syn_ack =
     [0, 17, 34, 51, 68, 85, 102, 119, 136, 153, 170, 187, 8, 0,
      69, 0, 0, 40, 28, 70, 64, 0, 64, 6, 40, 5, 192, 168, 0, 2, 93, 184, 216, 34,
      195, 80, 1, 187, 1, 2, 3, 4, 0, 0, 0, 0, 80, 18, 114, 16, 126, 43, 0, 0]"

definition ack_with_timestamp :: packet where
  "ack_with_timestamp =
     [0, 17, 34, 51, 68, 85, 102, 119, 136, 153, 170, 187, 8, 0,
      69, 0, 0, 52, 28, 70, 64, 0, 64, 6, 39, 249, 192, 168, 0, 2, 93, 184, 216, 34,
      195, 80, 1, 187, 1, 2, 3, 4, 0, 0, 0, 0, 128, 16, 114, 16, 68, 171, 0, 0,
      1, 1, 8, 10, 0, 0, 0, 100, 0, 0, 0, 7]"

definition windows_config :: tcp_config where
  "windows_config =
     \<lparr>ttl = 128, window_size = 65535, mss = 1460, window_scale = 8, sack_permitted = 1,
      timestamps = 0, timestamp_offset = 0\<rparr>"

definition syn_mss1400 :: packet where
  "syn_mss1400 =
     [0, 17, 34, 51, 68, 85, 102, 119, 136, 153, 170, 187, 8, 0,
      69, 0, 0, 44, 28, 70, 64, 0, 64, 6, 40, 1, 192, 168, 0, 2, 93, 184, 216, 34,
      195, 80, 1, 187, 1, 2, 3, 4, 0, 0, 0, 0, 96, 2, 114, 16, 102, 187, 0, 0,
      2, 4, 5, 120]"

definition syn_mss1500 :: packet where
  "syn_mss1500 =
     [0, 17, 34, 51, 68, 85, 102, 119, 136, 153, 170, 187, 8, 0,
      69, 0, 0, 44, 28, 70, 64, 0, 64, 6, 40, 1, 192, 168, 0, 2, 93, 184, 216, 34,
      195, 80, 1, 187, 1, 2, 3, 4, 0, 0, 0, 0, 96, 2, 114, 16, 102, 87, 0, 0,
      2, 4, 5, 220]"

text \<open>A Windows 11 profile in every slot of \<open>titan_os_profiles\<close>, and two configurations.\<close>

definition windows11_profile :: os_tcp_profile where
  "windows11_profile =
     \<lparr>prof_ttl = 128, prof_window_size = 65535, prof_window_scale = 8, prof_mss = 1460,
      sack_ok = 1, prof_timestamps = 0, nop_count = 3, opt_order = [2, 1, 3, 1, 1, 4, 0, 0],
      opt_count = 6\<rparr>"

definition windows11_profiles :: "nat \<Rightarrow> os_tcp_profile" where
  "windows11_profiles key = windows11_profile"

definition fingerprint_config :: "8 word \<Rightarrow> titan_config" where
  "fingerprint_config profile_id =
     \<lparr>quic_proxy_enabled = 0, tcp_fingerprint_enabled = 1, dns_protection_enabled = 0,
      webrtc_block_enabled = 0, proxy_ip = 0, proxy_port = 0, os_profile = profile_id,
      reserved = 0, dns_server_1 = 0, dns_server_2 = 0\<rparr>"

text \<open>A SYN whose four option bytes are three NOPs and a lone kind byte 3 at the very end.\<close>

definition syn_kind_at_end :: packet where
  "syn_kind_at_end =
     [0, 17, 34, 51, 68, 85, 102, 119, 136, 153, 170, 187, 8, 0,
      69, 0, 0, 44, 28, 70, 64, 0, 64, 6, 40, 1, 192, 168, 0, 2, 93, 184, 216, 34,
      195, 80, 1, 187, 1, 2, 3, 4, 0, 0, 0, 0, 96, 2, 114, 16, 108, 51, 0, 0,
      1, 1, 1, 3]"

definition aging_config :: tcp_config where
  "aging_config =
     \<lparr>ttl = 128, window_size = 65535, mss = 1460, window_scale = 8, sack_permitted = 1,
      timestamps = 0, timestamp_offset = 5\<rparr>"

text \<open>
  The IPv4 header checksum as the specification words it: with the checksum field taken
  as zero, the 16-bit big-endian words of the header are summed over its declared length
  of \<open>ihl \<times> 4\<close> bytes, the upper 16 bits are added into the lower 16 bits until no carry
  remains, and the result is complemented.
\<close>

fun be_words_sum :: "packet \<Rightarrow> nat \<Rightarrow> nat \<Rightarrow> nat" where
  "be_words_sum p ptr 0 = 0"
| "be_words_sum p ptr (Suc n) = 256 * ld8 p ptr + ld8 p (ptr + 1) + be_words_sum p (ptr + 2) n"

function fold_carries :: "nat \<Rightarrow> nat" where
  "fold_carries s =
     (if s div 65536 \<noteq> 0 then fold_carries (s mod 65536 + s div 65536) else s)"
  by pat_completeness auto
termination
proof (relation "measure (\<lambda>s. s)")
  show "wf (measure (\<lambda>s. s))" by simp
next
  fix s :: nat
  assume nz: "s div 65536 \<noteq> 0"
  define d m where "d = s div 65536" and "m = s mod 65536"
  have "s = 65536 * d + m" by (simp add: d_def m_def)
  moreover have "d \<noteq> 0" using nz by (simp add: d_def)
  ultimately have "m + d < s" by linarith
  then show "(s mod 65536 + s div 65536, s) \<in> measure (\<lambda>s. s)"
    by (simp add: d_def m_def)
qed

declare fold_carries.simps [simp del]

definition ipv4_checksum_reference :: "packet \<Rightarrow> nat \<Rightarrow> nat" where
  "ipv4_checksum_reference p iph =
     (let p0 = p[iph + 10 := 0, iph + 11 := 0]
      in 65535 - fold_carries (be_words_sum p0 iph (ihl p iph * 2)))"

text \<open>A SYN whose IPv4 header carries one word of options (\<open>ihl\<close> is 6).\<close>

definition syn_ip_options :: packet where
  "syn_ip_options =
     [0, 17, 34, 51, 68, 85, 102, 119, 136, 153, 170, 187, 8, 0,
      70, 0, 0, 44, 28, 70, 64, 0, 64, 6, 13, 201, 192, 168, 0, 2, 93, 184, 216, 34,
      7, 4, 18, 52,
      195, 80, 1, 187, 1, 2, 3, 4, 0, 0, 0, 0, 80, 2, 114, 16, 126, 59, 0, 0]"

text \<open>
  TCP options as RFC 793 lays them out: a No-Operation is the single byte 1; any other
  option is its kind byte, a length byte counting the whole option, and the payload.
  \<open>skippable\<close> holds of the options an MSS walk steps over: a No-Operation, or an option
  of a kind other than End-Of-List, No-Operation and MSS whose length fits a byte.
\<close>

datatype tcp_option = NOP | OPT byte "byte list"

fun encode :: "tcp_option \<Rightarrow> byte list" where
  "encode NOP = [1]"
| "encode (OPT kind payload) = kind # of_nat (2 + length payload) # payload"

fun skippable :: "tcp_option \<Rightarrow> bool" where
  "skippable NOP = True"
| "skippable (OPT kind payload) = (kind \<noteq> 0 \<and> kind \<noteq> 1 \<and> kind \<noteq> 2 \<and> length payload \<le> 253)"

text \<open>A SYN whose options are a No-Operation, a window scale of 7 and an MSS of 1400.\<close>

definition syn_wscale_mss1400 :: packet where
  "syn_wscale_mss1400 =
     [0, 17, 34, 51, 68, 85, 102, 119, 136, 153, 170, 187, 8, 0,
      69, 0, 0, 48, 28, 70, 64, 0, 64, 6, 39, 253, 192, 168, 0, 2, 93, 184, 216, 34,
      195, 80, 1, 187, 1, 2, 3, 4, 0, 0, 0, 0, 112, 2, 114, 16, 82, 173, 0, 0,
      1, 3, 3, 7, 2, 4, 5, 120]"

text \<open>The packet \<open>syn_mss1500\<close> after the TTL, window and MSS steps of \<open>titan_tc_egress\<close>.\<close>

definition syn_mss1500_ttl :: packet where
  "syn_mss1500_ttl =
     [0, 17, 34, 51, 68, 85, 102, 119, 136, 153, 170, 187, 8, 0,
      69, 0, 0, 44, 28, 70, 64, 0, 128, 6, 39, 193, 192, 168, 0, 2, 93, 184, 216, 34,
      195, 80, 1, 187, 1, 2, 3, 4, 0, 0, 0, 0, 96, 2, 114, 16, 102, 87, 0, 0,
      2, 4, 5, 220]"

definition syn_mss1500_window :: packet where
  "syn_mss1500_window =
     [0, 17, 34, 51, 68, 85, 102, 119, 136, 153, 170, 187, 8, 0,
      69, 0, 0, 44, 28, 70, 64, 0, 128, 6, 39, 193, 192, 168, 0, 2, 93, 184, 216, 34,
      195, 80, 1, 187, 1, 2, 3, 4, 0, 0, 0, 0, 96, 2, 255, 255, 216, 103, 0, 0,
      2, 4, 5, 220]"

definition syn_mss1500_egress :: packet where
  "syn_mss1500_egress =
     [0, 17, 34, 51, 68, 85, 102, 119, 136, 153, 170, 187, 8, 0,
      69, 0, 0, 44, 28, 70, 64, 0, 128, 6, 39, 193, 192, 168, 0, 2, 93, 184, 216, 34,
      195, 80, 1, 187, 1, 2, 3, 4, 0, 0, 0, 0, 96, 2, 255, 255, 216, 143, 0, 0,
      2, 4, 5, 180]"

section \<open>Loads, stores and frames\<close>

lemma list_update_Cons_numeral: "(x # xs)[numeral k := v] = x # xs[pred_numeral k := v]"
  by (simp add: numeral_eq_Suc)

lemmas ld_st_defs = ld8_def ld16_def ld32_def st8_def st16_def st32_def list_update_Cons_numeral

lemma length_st8 [simp]: "length (st8 p k v) = length p"
  by (simp add: st8_def)

lemma length_st16 [simp]: "length (st16 p k v) = length p"
  by (simp add: st16_def)

lemma length_st32 [simp]: "length (st32 p k v) = length p"
  by (simp add: st32_def)

lemma nth_st8_other: "j \<noteq> k \<Longrightarrow> st8 p k v ! j = p ! j"
  by (simp add: st8_def)

lemma nth_st16_other: "j \<noteq> k \<Longrightarrow> j \<noteq> k + 1 \<Longrightarrow> st16 p k v ! j = p ! j"
  by (simp add: st16_def nth_st8_other)

lemma ld8_st8_other: "j \<noteq> k \<Longrightarrow> ld8 (st8 p k v) j = ld8 p j"
  by (simp add: ld8_def nth_st8_other)

lemma ld8_st16_other: "j \<noteq> k \<Longrightarrow> j \<noteq> k + 1 \<Longrightarrow> ld8 (st16 p k v) j = ld8 p j"
  by (simp add: ld8_def nth_st16_other)

lemma unchanged_refl: "unchanged_outside S p p"
  by (simp add: unchanged_outside_def)

lemma unchanged_trans:
  "unchanged_outside S p q \<Longrightarrow> unchanged_outside T q r \<Longrightarrow> unchanged_outside (S \<union> T) p r"
  by (simp add: unchanged_outside_def)

lemma unchanged_mono: "unchanged_outside S p q \<Longrightarrow> S \<subseteq> T \<Longrightarrow> unchanged_outside T p q"
  by (auto simp: unchanged_outside_def)

lemma unchanged_trans3:
  "unchanged_outside S p q \<Longrightarrow> unchanged_outside T q r \<Longrightarrow> unchanged_outside U r s \<Longrightarrow>
   S \<union> T \<union> U \<subseteq> V \<Longrightarrow> unchanged_outside V p s"
  by (rule unchanged_mono [OF unchanged_trans [OF unchanged_trans]])

lemma unchanged_ld8: "unchanged_outside S p q \<Longrightarrow> k \<notin> S \<Longrightarrow> ld8 q k = ld8 p k"
  by (simp add: unchanged_outside_def ld8_def)

lemma unchanged_st8: "unchanged_outside {k} p (st8 p k v)"
  by (simp add: unchanged_outside_def nth_st8_other)

lemma unchanged_st16: "unchanged_outside {k, k + 1} p (st16 p k v)"
  by (simp add: unchanged_outside_def nth_st16_other)

lemma unchanged_drop:
  assumes "unchanged_outside S p q" and "\<forall>k\<in>S. k < n"
  shows "drop n q = drop n p"
proof (rule nth_equalityI)
  show "length (drop n q) = length (drop n p)"
    using assms(1) by (simp add: unchanged_outside_def)
next
  fix i assume "i < length (drop n q)"
  have "n + i \<notin> S" using assms(2) by auto
  then show "drop n q ! i = drop n p ! i"
    using assms(1) \<open>i < length (drop n q)\<close> by (simp add: unchanged_outside_def)
qed

section \<open>tcp\_fingerprint\_xdp without a configuration\<close>

lemma unchanged_update_ip_checksum:
  "unchanged_outside {iph + 10, iph + 11} p (update_ip_checksum p iph)"
  by (simp add: update_ip_checksum_def Let_def unchanged_outside_def nth_st16_other)

lemma unchanged_update_tcp_checksum:
  "unchanged_outside {tcph + 16, tcph + 17} p (update_tcp_checksum p iph tcph)"
  by (simp add: update_tcp_checksum_def Let_def unchanged_outside_def nth_st16_other)

lemma syn_st8_other: "k \<noteq> tcph + 13 \<Longrightarrow> syn (st8 p k v) tcph = syn p tcph"
  by (simp add: syn_def ld8_st8_other)

lemma ack_st8_other: "k \<noteq> tcph + 13 \<Longrightarrow> ack (st8 p k v) tcph = ack p tcph"
  by (simp add: ack_def ld8_st8_other)

lemma unchanged_apply_default:
  assumes "iph \<le> tcph"
  shows "unchanged_outside
     (if syn p tcph \<and> \<not> ack p tcph then {iph + 8, tcph + 14, tcph + 15} else {iph + 8})
     p (apply_default iph tcph p)"
proof -
  have "iph + 8 \<noteq> tcph + 13" using assms by simp
  then show ?thesis
    by (simp add: apply_default_def Let_def unchanged_outside_def nth_st16_other nth_st8_other
        syn_st8_other ack_st8_other)
qed

text \<open>
  C10. When the configuration lookup misses, \<open>tcp_fingerprint_xdp\<close> passes the packet
  on having written at most the TTL byte, the two IPv4 checksum bytes, the two TCP
  checksum bytes and, on a SYN without ACK only, the two window bytes. Every byte from
  the start of the TCP options on is as it was.
\<close>

theorem default_profile_leaves_options:
  "\<exists>q. tcp_fingerprint_xdp None p = Inr (XDP_PASS, q) \<and>
       unchanged_outside
         ({ETH_HLEN + 8, ETH_HLEN + 10, ETH_HLEN + 11,
           ETH_HLEN + ihl p ETH_HLEN * 4 + 16, ETH_HLEN + ihl p ETH_HLEN * 4 + 17} \<union>
          (if syn p (ETH_HLEN + ihl p ETH_HLEN * 4) \<and> \<not> ack p (ETH_HLEN + ihl p ETH_HLEN * 4)
           then {ETH_HLEN + ihl p ETH_HLEN * 4 + 14, ETH_HLEN + ihl p ETH_HLEN * 4 + 15}
           else {})) p q \<and>
       drop (ETH_HLEN + ihl p ETH_HLEN * 4 + 20) q = drop (ETH_HLEN + ihl p ETH_HLEN * 4 + 20) p"
proof -
  let ?tcph = "ETH_HLEN + ihl p ETH_HLEN * 4"
  let ?W = "if syn p ?tcph \<and> \<not> ack p ?tcph then {?tcph + 14, ?tcph + 15} else {}"
  let ?S = "{ETH_HLEN + 8, ETH_HLEN + 10, ETH_HLEN + 11, ?tcph + 16, ?tcph + 17} \<union> ?W"
  let ?q = "update_tcp_checksum (update_ip_checksum (apply_default ETH_HLEN ?tcph p) ETH_HLEN)
              ETH_HLEN ?tcph"
  have "ETH_HLEN \<le> ?tcph" by simp
  from unchanged_apply_default [OF this, of p]
  have "unchanged_outside ?S p ?q"
    by (rule unchanged_trans3 [OF _ unchanged_update_ip_checksum unchanged_update_tcp_checksum])
      auto
  moreover have "unchanged_outside ?S p p"
    by (rule unchanged_refl)
  moreover have "tcp_fingerprint_xdp None p = Inr (XDP_PASS, p) \<or>
      tcp_fingerprint_xdp None p = Inr (XDP_PASS, ?q)"
    by (simp add: tcp_fingerprint_xdp_def Let_def)
  ultimately obtain q where q: "tcp_fingerprint_xdp None p = Inr (XDP_PASS, q)"
      "unchanged_outside ?S p q"
    by blast
  have "\<forall>k\<in>?S. k < ?tcph + 20" by auto
  with q(2) have "drop (?tcph + 20) q = drop (?tcph + 20) p"
    by (rule unchanged_drop)
  with q show ?thesis by blast
qed

lemma ack_with_timestamp_facts:
  "ihl ack_with_timestamp ETH_HLEN = 5"
  "\<not> syn ack_with_timestamp 34"
  by (simp_all add: ack_with_timestamp_def ihl_def syn_def ld8_def)

theorem default_profile_leaves_options_witness:
  "\<exists>q. tcp_fingerprint_xdp None ack_with_timestamp = Inr (XDP_PASS, q) \<and>
       q ! 48 = ack_with_timestamp ! 48 \<and> q ! 49 = ack_with_timestamp ! 49 \<and>
       drop 54 q = [1, 1, 8, 10, 0, 0, 0, 100, 0, 0, 0, 7]"
proof -
  from default_profile_leaves_options [of ack_with_timestamp]
  obtain q where q: "tcp_fingerprint_xdp None ack_with_timestamp = Inr (XDP_PASS, q)"
    "unchanged_outside {22, 24, 25, 50, 51} ack_with_timestamp q"
    "drop 54 q = drop 54 ack_with_timestamp"
    by (auto simp: ack_with_timestamp_facts)
  have "drop 54 ack_with_timestamp = [1, 1, 8, 10, 0, 0, 0, 100, 0, 0, 0, 7]"
    by (simp add: ack_with_timestamp_def)
  with q show ?thesis
    by (auto simp: unchanged_outside_def)
qed

section \<open>Buffers too short for a header\<close>

text \<open>
  C7, as stated, fails: \<open>xdp_outbound_masking\<close> rewrites the TTL and the identification
  of a TCP packet before it finds that the TCP header does not fit before \<open>data_end\<close>.
\<close>

lemma truncated_tcp_facts:
  "length truncated_tcp = 44" "ld16 truncated_tcp 12 = 8"
  by (simp_all add: truncated_tcp_def ld_st_defs)

lemma truncated_tcp_masked:
  "st16 (st8 truncated_tcp 22 64) 18 0 =
     [0, 17, 34, 51, 68, 85, 102, 119, 136, 153, 170, 187, 8, 0,
      69, 0, 0, 40, 0, 0, 64, 0, 64, 6, 232, 4, 192, 168, 0, 2, 93, 184, 216, 34,
      195, 80, 1, 187, 1, 2, 3, 4, 0, 0]"
  by (simp add: truncated_tcp_def ld_st_defs)

theorem overlay_past_data_end_counterexample:
  "length truncated_tcp < ETH_HLEN + 20 + 20 \<and>
   xdp_outbound_masking truncated_tcp =
     (XDP_PASS,
      [0, 17, 34, 51, 68, 85, 102, 119, 136, 153, 170, 187, 8, 0,
       69, 0, 0, 40, 0, 0, 64, 0, 64, 6, 232, 4, 192, 168, 0, 2, 93, 184, 216, 34,
       195, 80, 1, 187, 1, 2, 3, 4, 0, 0]) \<and>
   snd (xdp_outbound_masking truncated_tcp) \<noteq> truncated_tcp"
proof -
  have "ld8 (st16 (st8 truncated_tcp 22 64) 18 0) 23 = 6"
    by (simp add: truncated_tcp_masked) (simp add: ld8_def)
  then have "xdp_outbound_masking truncated_tcp = (XDP_PASS, st16 (st8 truncated_tcp 22 64) 18 0)"
    by (simp add: xdp_outbound_masking_def Let_def truncated_tcp_facts bpf_htons_def)
  then show ?thesis
    by (simp add: truncated_tcp_masked truncated_tcp_facts) (simp add: truncated_tcp_def)
qed

text \<open>
  C7, amended. A buffer shorter than the Ethernet and IPv4 headers together (34 bytes)
  leaves \<open>tcp_fingerprint_xdp\<close> and \<open>xdp_outbound_masking\<close> with the pass verdict and
  unchanged; \<open>tcp_fingerprint_xdp\<close> also passes a buffer unchanged when the TCP header,
  placed by the declared IPv4 header length, would end past \<open>data_end\<close>.
\<close>

theorem short_buffer_passes_unchanged:
  "(length p < ETH_HLEN + 20 \<longrightarrow>
      tcp_fingerprint_xdp config p = Inr (XDP_PASS, p) \<and>
      xdp_outbound_masking p = (XDP_PASS, p)) \<and>
   (length p < ETH_HLEN + ihl p ETH_HLEN * 4 + 20 \<longrightarrow>
      tcp_fingerprint_xdp config p = Inr (XDP_PASS, p))"
  by (simp add: tcp_fingerprint_xdp_def xdp_outbound_masking_def Let_def)

theorem short_buffer_passes_unchanged_witness:
  "tcp_fingerprint_xdp (Some windows_config) (take 30 truncated_tcp) =
     Inr (XDP_PASS, take 30 truncated_tcp) \<and>
   xdp_outbound_masking (take 30 truncated_tcp) = (XDP_PASS, take 30 truncated_tcp) \<and>
   tcp_fingerprint_xdp (Some windows_config) truncated_tcp = Inr (XDP_PASS, truncated_tcp)"
proof -
  have "ihl truncated_tcp ETH_HLEN = 5"
    by (simp add: truncated_tcp_def ihl_def ld8_def)
  then show ?thesis
    using short_buffer_passes_unchanged [of "take 30 truncated_tcp" "Some windows_config"]
      short_buffer_passes_unchanged [of truncated_tcp "Some windows_config"]
    by (simp add: truncated_tcp_facts)
qed

section \<open>What a TTL rewrite touches\<close>

lemma unchanged_modify_ttl:
  "unchanged_outside {iph + 8, iph + 10, iph + 11} p (modify_ttl sig iph p)"
  by (simp add: modify_ttl_def ip_checksum_def Let_def unchanged_outside_def
      nth_st16_other nth_st8_other)

lemma unchanged_modify_window:
  "unchanged_outside {tcph + 14, tcph + 15, tcph + 16, tcph + 17} p (modify_window sig tcph p)"
  by (simp add: modify_window_def update_tcp_checksum_incr_def Let_def unchanged_outside_def
      nth_st16_other)

lemma ihl_modify_ttl: "ihl (modify_ttl sig ETH_HLEN p) ETH_HLEN = ihl p ETH_HLEN"
  by (simp add: ihl_def unchanged_ld8 [OF unchanged_modify_ttl])

lemma unchanged_network_shield_xdp:
  "unchanged_outside
     {ETH_HLEN + 8, ETH_HLEN + 10, ETH_HLEN + 11,
      ETH_HLEN + ihl p ETH_HLEN * 4 + 14, ETH_HLEN + ihl p ETH_HLEN * 4 + 15,
      ETH_HLEN + ihl p ETH_HLEN * 4 + 16, ETH_HLEN + ihl p ETH_HLEN * 4 + 17}
     p (snd (network_shield_xdp persona_ptr p))"
proof -
  let ?sig = "signatures ! resolve_persona persona_ptr"
  let ?p1 = "modify_ttl ?sig ETH_HLEN p"
  let ?t = "ETH_HLEN + ihl p ETH_HLEN * 4"
  let ?S = "{ETH_HLEN + 8, ETH_HLEN + 10, ETH_HLEN + 11, ?t + 14, ?t + 15, ?t + 16, ?t + 17}"
  have 1: "unchanged_outside ?S p ?p1"
    by (rule unchanged_mono [OF unchanged_modify_ttl]) auto
  have 2: "unchanged_outside ?S p (modify_window ?sig ?t ?p1)"
    by (rule unchanged_mono [OF unchanged_trans [OF unchanged_modify_ttl unchanged_modify_window]])
      auto
  have "snd (network_shield_xdp persona_ptr p) \<in> {p, ?p1, modify_window ?sig ?t ?p1}"
    by (simp add: network_shield_xdp_def Let_def ihl_modify_ttl)
  with 1 2 unchanged_refl [of ?S p] show ?thesis by auto
qed

text \<open>
  C9, as stated, fails: \<open>xdp_outbound_masking\<close> rewrites the TTL of this packet from 128
  to 64 and also zeroes its identification field (bytes 18 and 19 of the frame).
\<close>

lemma syn_ttl128_facts:
  "length syn_ttl128 = 54" "ld16 syn_ttl128 12 = 8" "ihl syn_ttl128 ETH_HLEN = 5"
  by (simp_all add: syn_ttl128_def ihl_def ld_st_defs)

lemma syn_ttl128_masked:
  "st16 (st16 (st8 syn_ttl128 22 64) 18 0) 24 0 =
     [0, 17, 34, 51, 68, 85, 102, 119, 136, 153, 170, 187, 8, 0,
      69, 0, 0, 40, 0, 0, 64, 0, 64, 6, 0, 0, 192, 168, 0, 2, 93, 184, 216, 34,
      195, 80, 1, 187, 1, 2, 3, 4, 0, 0, 0, 0, 80, 2, 114, 16, 126, 59, 0, 0]"
  by (simp add: syn_ttl128_def ld_st_defs)

theorem identification_rewritten_counterexample:
  "ld8 syn_ttl128 (ETH_HLEN + 8) = 128 \<and>
   xdp_outbound_masking syn_ttl128 =
     (XDP_PASS,
      [0, 17, 34, 51, 68, 85, 102, 119, 136, 153, 170, 187, 8, 0,
       69, 0, 0, 40, 0, 0, 64, 0, 64, 6, 0, 0, 192, 168, 0, 2, 93, 184, 216, 34,
       195, 80, 1, 187, 1, 2, 3, 4, 0, 0, 0, 0, 80, 2, 114, 16, 126, 59, 0, 0]) \<and>
   snd (xdp_outbound_masking syn_ttl128) ! (ETH_HLEN + 4) \<noteq> syn_ttl128 ! (ETH_HLEN + 4)"
proof -
  have "xdp_outbound_masking syn_ttl128 =
      (XDP_PASS, st16 (st16 (st8 syn_ttl128 22 64) 18 0) 24 0)"
    by (simp add: xdp_outbound_masking_def Let_def syn_ttl128_facts bpf_htons_def)
  moreover have "ld8 syn_ttl128 22 = 128" "syn_ttl128 ! 18 = 28"
    by (simp_all add: syn_ttl128_def ld8_def)
  ultimately show ?thesis
    by (simp add: syn_ttl128_masked)
qed

text \<open>
  C9, amended. \<open>network_shield_tc\<close> changes no byte of the buffer other than the TTL
  byte and the two IPv4 checksum bytes. \<open>network_shield_xdp\<close> changes no other byte of
  an IPv4 header of at least five words (its TCP edits lie behind the header).
  \<open>xdp_outbound_masking\<close> changes no byte other than these three and the two bytes of
  the identification field.
\<close>

theorem ttl_rewrite_frame:
  "unchanged_outside {ETH_HLEN + 8, ETH_HLEN + 10, ETH_HLEN + 11} p
     (snd (network_shield_tc persona_ptr p)) \<and>
   (5 \<le> ihl p ETH_HLEN \<longrightarrow>
      (\<forall>k < ETH_HLEN + ihl p ETH_HLEN * 4.
         k \<notin> {ETH_HLEN + 8, ETH_HLEN + 10, ETH_HLEN + 11} \<longrightarrow>
         snd (network_shield_xdp persona_ptr p) ! k = p ! k)) \<and>
   unchanged_outside {ETH_HLEN + 4, ETH_HLEN + 5, ETH_HLEN + 8, ETH_HLEN + 10, ETH_HLEN + 11} p
     (snd (xdp_outbound_masking p))"
proof (intro conjI)
  have "snd (network_shield_tc persona_ptr p) \<in>
      {p, modify_ttl (signatures ! resolve_persona persona_ptr) ETH_HLEN p}"
    by (simp add: network_shield_tc_def Let_def)
  then show "unchanged_outside {ETH_HLEN + 8, ETH_HLEN + 10, ETH_HLEN + 11} p
      (snd (network_shield_tc persona_ptr p))"
    using unchanged_modify_ttl [of ETH_HLEN p] unchanged_refl by auto
next
  show "5 \<le> ihl p ETH_HLEN \<longrightarrow>
      (\<forall>k < ETH_HLEN + ihl p ETH_HLEN * 4.
         k \<notin> {ETH_HLEN + 8, ETH_HLEN + 10, ETH_HLEN + 11} \<longrightarrow>
         snd (network_shield_xdp persona_ptr p) ! k = p ! k)"
    using unchanged_network_shield_xdp [of p persona_ptr]
    by (auto simp: unchanged_outside_def)
next
  let ?S = "{ETH_HLEN + 4, ETH_HLEN + 5, ETH_HLEN + 8, ETH_HLEN + 10, ETH_HLEN + 11}"
  let ?p1 = "st16 (st8 p (ETH_HLEN + 8) 64) (ETH_HLEN + 4) 0"
  have 1: "unchanged_outside ?S p ?p1"
    by (simp add: unchanged_outside_def nth_st16_other nth_st8_other)
  have 2: "unchanged_outside ?S p (st16 ?p1 (ETH_HLEN + 10) 0)"
    by (simp add: unchanged_outside_def nth_st16_other nth_st8_other)
  have "snd (xdp_outbound_masking p) \<in> {p, ?p1, st16 ?p1 (ETH_HLEN + 10) 0}"
    by (simp add: xdp_outbound_masking_def Let_def)
  with 1 2 unchanged_refl [of ?S p] show "unchanged_outside ?S p (snd (xdp_outbound_masking p))"
    by auto
qed

theorem ttl_rewrite_frame_witness:
  "snd (network_shield_tc None syn_ttl128) ! 18 = 28 \<and>
   snd (network_shield_xdp None syn_ttl128) ! 18 = 28 \<and>
   snd (xdp_outbound_masking syn_ttl128) ! 23 = 6"
proof -
  have "syn_ttl128 ! 18 = 28" "syn_ttl128 ! 23 = 6"
    by (simp_all add: syn_ttl128_def)
  then show ?thesis
    using ttl_rewrite_frame [of syn_ttl128 None]
    by (simp add: unchanged_outside_def syn_ttl128_facts)
qed

section \<open>Profile identifiers out of range\<close>

text \<open>
  C4, as stated, fails: with profile identifier 99, \<open>get_os_profile\<close> finds no profile
  and \<open>titan_tc_egress\<close> passes the packet on as it came, its TTL still 64, although
  every slot of the table holds a profile with TTL 128.
\<close>

lemma syn_mss1500_facts:
  "length syn_mss1500 = 58" "ld16 syn_mss1500 12 = 8" "ld8 syn_mss1500 23 = 6"
  "ihl syn_mss1500 ETH_HLEN = 5" "ld8 syn_mss1500 22 = 64"
  by (simp_all add: syn_mss1500_def ihl_def ld_st_defs)

theorem profile_99_counterexample:
  "get_os_profile windows11_profiles 99 = None \<and>
   titan_tc_egress (Some (fingerprint_config 99)) windows11_profiles syn_mss1500 =
     (TC_ACT_OK, syn_mss1500) \<and>
   ld8 syn_mss1500 (ETH_HLEN + 8) = 64 \<and> prof_ttl (windows11_profiles 0) = 128"
proof -
  have "get_os_profile windows11_profiles 99 = None"
    by (simp add: get_os_profile_def)
  then show ?thesis
    by (simp add: titan_tc_egress_def fingerprint_config_def syn_mss1500_facts bpf_htons_def
        windows11_profiles_def windows11_profile_def)
qed

text \<open>
  C4, amended. In \<open>network_shield_xdp\<close> and \<open>network_shield_tc\<close> the persona index is
  always inside the table of signatures, and a persona above \<open>PERSONA_MACOS\<close> is treated
  as \<open>PERSONA_LINUX\<close>: the packet is processed as with no persona set. In
  \<open>titan_tc_egress\<close> a profile identifier of 4 or more finds no profile, no slot is
  read, and the packet is passed on unmodified.
\<close>

theorem out_of_range_profile:
  "resolve_persona persona_ptr < length signatures \<and>
   (PERSONA_MACOS < unat v \<longrightarrow>
      resolve_persona (Some v) = PERSONA_LINUX \<and>
      network_shield_xdp (Some v) p = network_shield_xdp None p \<and>
      network_shield_tc (Some v) p = network_shield_tc None p) \<and>
   (titan_os_profiles_max_entries \<le> unat (os_profile cfg) \<longrightarrow>
      get_os_profile titan_os_profiles (os_profile cfg) = None \<and>
      titan_tc_egress (Some cfg) titan_os_profiles p = (TC_ACT_OK, p))"
proof (intro conjI impI)
  show "resolve_persona persona_ptr < length signatures"
    by (simp add: resolve_persona_def signatures_def Let_def split: option.split)
next
  assume "PERSONA_MACOS < unat v"
  then show v: "resolve_persona (Some v) = PERSONA_LINUX"
    by (simp add: resolve_persona_def)
  have n: "resolve_persona None = PERSONA_LINUX"
    by (simp add: resolve_persona_def)
  show "network_shield_xdp (Some v) p = network_shield_xdp None p"
    unfolding network_shield_xdp_def v n by (rule refl)
  show "network_shield_tc (Some v) p = network_shield_tc None p"
    unfolding network_shield_tc_def v n by (rule refl)
next
  assume "titan_os_profiles_max_entries \<le> unat (os_profile cfg)"
  then show none: "get_os_profile titan_os_profiles (os_profile cfg) = None"
    by (simp add: get_os_profile_def)
  show "titan_tc_egress (Some cfg) titan_os_profiles p = (TC_ACT_OK, p)"
    by (simp add: titan_tc_egress_def none Let_def)
qed

theorem out_of_range_profile_witness:
  "resolve_persona (Some 99) = PERSONA_LINUX \<and>
   network_shield_xdp (Some 99) syn_mss1500 = network_shield_xdp None syn_mss1500 \<and>
   get_os_profile windows11_profiles (os_profile (fingerprint_config 99)) = None \<and>
   titan_tc_egress (Some (fingerprint_config 99)) windows11_profiles syn_mss1500 =
     (TC_ACT_OK, syn_mss1500)"
  using out_of_range_profile [of "Some 99" 99 syn_mss1500 "fingerprint_config 99" windows11_profiles]
  by (simp add: fingerprint_config_def)

section \<open>The window of a SYN-ACK\<close>

text \<open>
  C2. \<open>tcp_fingerprint_xdp\<close> and \<open>network_shield_xdp\<close> rewrite the window under
  \<open>tcph->syn && !tcph->ack\<close>, but \<open>tcp_fingerprint_tc\<close> (like \<open>titan_tc_egress\<close>) tests
  \<open>tcph->syn\<close> alone: on this SYN-ACK, whose window is 29200, it stores the profile's
  window 65535.
\<close>

lemma syn_ack_facts:
  "length syn_ack = 54" "ld16 syn_ack 12 = 8" "ld8 syn_ack 23 = 6" "ihl syn_ack ETH_HLEN = 5"
  "syn syn_ack 34" "ack syn_ack 34" "ld16 syn_ack 48 = bpf_htons 29200"
  by (simp_all add: syn_ack_def ihl_def syn_def ack_def bpf_htons_def ld_st_defs)

lemma windows_config_fields:
  "unat (ttl windows_config) = 128" "unat (window_size windows_config) = 65535"
  "unat (mss windows_config) = 1460" "unat (timestamp_offset windows_config) = 0"
  by (simp_all add: windows_config_def)

lemma syn_ack_rewritten:
  "st16 (st8 syn_ack 22 128) 48 65535 =
     [0, 17, 34, 51, 68, 85, 102, 119, 136, 153, 170, 187, 8, 0,
      69, 0, 0, 40, 28, 70, 64, 0, 128, 6, 40, 5, 192, 168, 0, 2, 93, 184, 216, 34,
      195, 80, 1, 187, 1, 2, 3, 4, 0, 0, 0, 0, 80, 18, 255, 255, 126, 43, 0, 0]"
  by (simp add: syn_ack_def ld_st_defs)

lemma csum_replace_by_diff_1320: "csum_replace_by_diff 1320 0 = 1320"
  by (simp add: csum_replace_by_diff_def csum_add_def csum_fold_def Let_def)

theorem syn_ack_window_overwritten:
  "syn syn_ack 34 \<and> ack syn_ack 34 \<and> ld16 syn_ack 48 = bpf_htons 29200 \<and>
   tcp_fingerprint_tc (Some windows_config) syn_ack =
     (TC_ACT_OK,
      [0, 17, 34, 51, 68, 85, 102, 119, 136, 153, 170, 187, 8, 0,
       69, 0, 0, 40, 28, 70, 64, 0, 128, 6, 40, 5, 192, 168, 0, 2, 93, 184, 216, 34,
       195, 80, 1, 187, 1, 2, 3, 4, 0, 0, 0, 0, 80, 18, 255, 255, 126, 43, 0, 0]) \<and>
   ld16 (snd (tcp_fingerprint_tc (Some windows_config) syn_ack)) 48 =
     bpf_htons (unat (window_size windows_config))"
proof -
  let ?q = "st16 (st8 syn_ack 22 128) 48 65535"
  have s: "syn (st8 syn_ack 22 128) 34"
    by (simp add: syn_st8_other syn_ack_facts)
  have h: "bpf_htons 65535 = 65535"
    by (simp add: bpf_htons_def)
  have 1: "tcp_fingerprint_tc (Some windows_config) syn_ack =
      (TC_ACT_OK, bpf_l3_csum_replace ?q 24 0 0 0)"
    by (simp add: tcp_fingerprint_tc_def Let_def syn_ack_facts(1-4) windows_config_fields s h
        bpf_htons_def)
  have "ld16 ?q 24 = 1320"
    unfolding syn_ack_rewritten by (simp add: ld16_def ld8_def)
  then have 2: "bpf_l3_csum_replace ?q 24 0 0 0 = st16 ?q 24 1320"
    by (simp add: bpf_l3_csum_replace_def csum_replace_by_diff_1320 syn_ack_facts)
  have 3: "st16 ?q 24 1320 = ?q"
    unfolding syn_ack_rewritten by (simp add: ld_st_defs)
  have 4: "ld16 ?q 48 = 65535"
    unfolding syn_ack_rewritten by (simp add: ld16_def ld8_def)
  show ?thesis
    by (simp add: 1 2 3 4 syn_ack_facts windows_config_fields h) (simp add: syn_ack_rewritten)
qed

section \<open>The option walks of tcp\_fingerprint\_xdp at the end of the buffer\<close>

text \<open>
  C6. The walks of \<open>tcp_fingerprint_xdp\<close> load the length byte \<open>opts[i + 1]\<close> without
  comparing \<open>i + 1\<close> with the end of the options (the walk of \<open>titan_tc_egress\<close> makes
  that comparison first). On this 58-byte SYN, whose options end with the buffer and
  whose last option byte is a kind byte, the timestamp walk loads the byte at offset 58,
  which is \<open>data_end\<close>.
\<close>

lemma aging_config_fields:
  "unat (ttl aging_config) = 128" "unat (window_size aging_config) = 65535"
  "unat (mss aging_config) = 1460" "unat (timestamp_offset aging_config) = 5"
  by (simp_all add: aging_config_def)

lemma syn_kind_at_end_facts:
  "length syn_kind_at_end = 58" "ld16 syn_kind_at_end 12 = 8" "ld8 syn_kind_at_end 23 = 6"
  "ihl syn_kind_at_end ETH_HLEN = 5" "syn syn_kind_at_end 34" "\<not> ack syn_kind_at_end 34"
  by (simp_all add: syn_kind_at_end_def ihl_def syn_def ack_def ld_st_defs)

lemma syn_kind_at_end_rewritten:
  "st16 (st8 syn_kind_at_end 22 128) 48 65535 =
     [0, 17, 34, 51, 68, 85, 102, 119, 136, 153, 170, 187, 8, 0,
      69, 0, 0, 44, 28, 70, 64, 0, 128, 6, 40, 1, 192, 168, 0, 2, 93, 184, 216, 34,
      195, 80, 1, 187, 1, 2, 3, 4, 0, 0, 0, 0, 96, 2, 255, 255, 108, 51, 0, 0,
      1, 1, 1, 3]"
  by (simp add: syn_kind_at_end_def ld_st_defs)

lemma syn_kind_at_end_options:
  "doff (st16 (st8 syn_kind_at_end 22 128) 48 65535) 34 = 6"
  "ld8 (st16 (st8 syn_kind_at_end 22 128) 48 65535) 54 = 1"
  "ld8 (st16 (st8 syn_kind_at_end 22 128) 48 65535) 55 = 1"
  "ld8 (st16 (st8 syn_kind_at_end 22 128) 48 65535) 56 = 1"
  "ld8 (st16 (st8 syn_kind_at_end 22 128) 48 65535) 57 = 3"
  unfolding syn_kind_at_end_rewritten by (simp_all add: doff_def ld8_def)

lemma ts_loop_kind_at_end:
  "ts_loop aging_config 54 24 (st16 (st8 syn_kind_at_end 22 128) 48 65535) 0 =
     Inl (Oob_read 58)"
proof -
  let ?q = "st16 (st8 syn_kind_at_end 22 128) 48 65535"
  have 3: "ts_loop aging_config 54 24 ?q 3 = Inl (Oob_read 58)"
    by (subst ts_loop.simps) (simp add: syn_kind_at_end_options syn_kind_at_end_facts)
  have 2: "ts_loop aging_config 54 24 ?q 2 = ts_loop aging_config 54 24 ?q 3"
    by (subst ts_loop.simps) (simp add: syn_kind_at_end_options syn_kind_at_end_facts)
  have 1: "ts_loop aging_config 54 24 ?q 1 = ts_loop aging_config 54 24 ?q 2"
    by (subst ts_loop.simps)
      (simp add: syn_kind_at_end_options syn_kind_at_end_facts numeral_2_eq_2 [symmetric])
  have 0: "ts_loop aging_config 54 24 ?q 0 = ts_loop aging_config 54 24 ?q 1"
    by (subst ts_loop.simps) (simp add: syn_kind_at_end_options syn_kind_at_end_facts)
  show ?thesis by (simp only: 0 1 2 3)
qed

theorem option_walk_reads_data_end:
  "length syn_kind_at_end = 58 \<and>
   tcp_fingerprint_xdp (Some aging_config) syn_kind_at_end = Inl (Oob_read 58)"
proof -
  let ?q = "st16 (st8 syn_kind_at_end 22 128) 48 65535"
  have s: "syn (st8 syn_kind_at_end 22 128) 34" "\<not> ack (st8 syn_kind_at_end 22 128) 34"
    by (simp_all add: syn_st8_other ack_st8_other syn_kind_at_end_facts)
  have h: "bpf_htons 65535 = 65535"
    by (simp add: bpf_htons_def)
  have "timestamp_randomization aging_config 34 ?q = Inl (Oob_read 58)"
    by (simp add: timestamp_randomization_def Let_def aging_config_fields
        syn_kind_at_end_options syn_kind_at_end_facts ts_loop_kind_at_end)
  then have "apply_config aging_config 14 34 syn_kind_at_end = Inl (Oob_read 58)"
    by (simp add: apply_config_def Let_def aging_config_fields s h)
  then show ?thesis
    by (simp add: tcp_fingerprint_xdp_def Let_def syn_kind_at_end_facts bpf_htons_def)
qed

section \<open>The IPv4 checksum of a header with options\<close>

text \<open>
  C8. Both full recomputations sum ten words, the first 20 bytes of the header:
  \<open>update_ip_checksum\<close> counts \<open>sizeof(*iph) >> 1\<close> words and the loop of \<open>ip_checksum\<close>
  runs \<open>i\<close> up to 10 only, whatever \<open>ihl\<close> says. For this header of six words, whose
  stored checksum \<open>0x0dc9\<close> is the reference value, both compute \<open>0x2701\<close>.
\<close>

lemma sum_words_numeral:
  "sum_words p ptr (numeral k) c =
     sum_words p (ptr + 2) (pred_numeral k) ((c + ld16 p ptr) mod 2 ^ 32)"
  by (simp only: numeral_eq_Suc sum_words.simps)

lemma sum_words_1: "sum_words p ptr 1 c = (c + ld16 p ptr) mod 2 ^ 32"
  by (simp only: One_nat_def sum_words.simps)

lemma tcp_sum_words_numeral:
  "tcp_sum_words p ptr (numeral k) c =
     (if ptr + 2 > length p then c
      else tcp_sum_words p (ptr + 2) (pred_numeral k) ((c + ld16 p ptr) mod 2 ^ 32))"
  by (simp only: numeral_eq_Suc tcp_sum_words.simps)

lemma tcp_sum_words_1:
  "tcp_sum_words p ptr 1 c = (if ptr + 2 > length p then c else (c + ld16 p ptr) mod 2 ^ 32)"
  by (simp only: One_nat_def tcp_sum_words.simps)

lemma ip_sum_words_numeral:
  "ip_sum_words p iph len i (numeral k) c =
     ip_sum_words p iph len (i + 1) (pred_numeral k)
       (if i * 2 < len then (c + ld16 p (iph + 2 * i)) mod 2 ^ 32 else c)"
  by (simp only: numeral_eq_Suc ip_sum_words.simps)

lemma ip_sum_words_1:
  "ip_sum_words p iph len i 1 c =
     (if i * 2 < len then (c + ld16 p (iph + 2 * i)) mod 2 ^ 32 else c)"
  by (simp only: One_nat_def ip_sum_words.simps)

lemma be_words_sum_numeral:
  "be_words_sum p ptr (numeral k) =
     256 * ld8 p ptr + ld8 p (ptr + 1) + be_words_sum p (ptr + 2) (pred_numeral k)"
  by (simp only: numeral_eq_Suc be_words_sum.simps)

lemma be_words_sum_1: "be_words_sum p ptr 1 = 256 * ld8 p ptr + ld8 p (ptr + 1)"
  by (simp only: One_nat_def be_words_sum.simps add_0_right)

lemmas words_numeral = sum_words_numeral sum_words_1 tcp_sum_words_numeral tcp_sum_words_1
  ip_sum_words_numeral ip_sum_words_1 be_words_sum_numeral be_words_sum_1

lemma syn_ip_options_zeroed:
  "st16 syn_ip_options 24 0 =
     [0, 17, 34, 51, 68, 85, 102, 119, 136, 153, 170, 187, 8, 0,
      70, 0, 0, 44, 28, 70, 64, 0, 64, 6, 0, 0, 192, 168, 0, 2, 93, 184, 216, 34,
      7, 4, 18, 52,
      195, 80, 1, 187, 1, 2, 3, 4, 0, 0, 0, 0, 80, 2, 114, 16, 126, 59, 0, 0]"
  "syn_ip_options[24 := 0, 25 := 0] = st16 syn_ip_options 24 0"
  by (simp_all add: syn_ip_options_def ld_st_defs)

lemma syn_ip_options_ihl: "ihl syn_ip_options ETH_HLEN = 6"
  by (simp add: syn_ip_options_def ihl_def ld8_def)

lemma syn_ip_options_sums:
  "sum_words (st16 syn_ip_options 24 0) 14 10 0 = 130775"
  "ip_sum_words (st16 syn_ip_options 24 0) 14 24 0 10 0 = 130775"
  "be_words_sum (st16 syn_ip_options 24 0) 14 12 = 193076"
  unfolding syn_ip_options_zeroed
  by (simp_all add: words_numeral ld16_def ld8_def)

lemma syn_ip_options_folds:
  "fold_while 130775 = 65240" "csum_fold_helper 130775 = 295" "fold_carries 193076 = 62006"
proof -
  have "fold_while 65240 = 65240" by (subst fold_while.simps) simp
  then show "fold_while 130775 = 65240" by (subst fold_while.simps) simp
  show "csum_fold_helper 130775 = 295" by (simp add: csum_fold_helper_def fold_once_def)
  have "fold_carries 62006 = 62006" by (subst fold_carries.simps) simp
  then show "fold_carries 193076 = 62006" by (subst fold_carries.simps) simp
qed

theorem ip_options_outside_checksum:
  "ihl syn_ip_options ETH_HLEN = 6 \<and>
   ipv4_checksum_reference syn_ip_options ETH_HLEN = 3529 \<and>
   bpf_ntohs (ld16 syn_ip_options (ETH_HLEN + 10)) = 3529 \<and>
   bpf_ntohs (ld16 (update_ip_checksum syn_ip_options ETH_HLEN) (ETH_HLEN + 10)) = 9985 \<and>
   bpf_ntohs (snd (ip_checksum syn_ip_options ETH_HLEN)) = 9985"
proof -
  have r: "ipv4_checksum_reference syn_ip_options ETH_HLEN = 3529"
    by (simp add: ipv4_checksum_reference_def syn_ip_options_ihl syn_ip_options_zeroed(2)
        syn_ip_options_sums syn_ip_options_folds)
  have s: "bpf_ntohs (ld16 syn_ip_options (ETH_HLEN + 10)) = 3529"
    by (simp add: syn_ip_options_def bpf_ntohs_def ld16_def ld8_def)
  have "update_ip_checksum syn_ip_options ETH_HLEN = st16 (st16 syn_ip_options 24 0) 24 295"
    by (simp add: update_ip_checksum_def syn_ip_options_sums syn_ip_options_folds)
  moreover have "ld16 (st16 (st16 syn_ip_options 24 0) 24 295) 24 = 295"
    unfolding syn_ip_options_zeroed by (simp add: ld_st_defs)
  ultimately have u:
      "bpf_ntohs (ld16 (update_ip_checksum syn_ip_options ETH_HLEN) (ETH_HLEN + 10)) = 9985"
    by (simp add: bpf_ntohs_def)
  have "snd (ip_checksum syn_ip_options ETH_HLEN) = 295"
    by (simp add: ip_checksum_def syn_ip_options_ihl syn_ip_options_sums syn_ip_options_folds)
  then have i: "bpf_ntohs (snd (ip_checksum syn_ip_options ETH_HLEN)) = 9985"
    by (simp add: bpf_ntohs_def)
  show ?thesis
    using r s u i syn_ip_options_ihl by simp
qed

section \<open>MSS rewriting\<close>

text \<open>
  C3, as stated, fails: \<open>titan_tc_egress\<close> replaces an advertised MSS that differs from
  the profile's, also a larger one. This SYN advertises 1500 and leaves with 1460.
\<close>

lemma windows11_profile_fields:
  "unat (prof_ttl windows11_profile) = 128" "unat (prof_window_size windows11_profile) = 65535"
  "unat (prof_mss windows11_profile) = 1460" "unat (prof_window_scale windows11_profile) = 8"
  by (simp_all add: windows11_profile_def)

lemmas kernel_csum_defs = bpf_l3_csum_replace_def bpf_l4_csum_replace_def csum_replace2_def
  csum16_add_def csum_replace4_def csum_add_def csum_fold_def bpf_htons_def Let_def

lemma egress_ttl: "rewrite_ttl windows11_profile syn_mss1500 = Inr syn_mss1500_ttl"
proof -
  have "ld8 syn_mss1500 22 = 64" "ld16 syn_mss1500 24 = 296" "length syn_mss1500 = 58"
    by (simp_all add: syn_mss1500_def ld16_def ld8_def)
  moreover have "csum_replace2 296 16384 32768 = 49447"
    by (simp add: kernel_csum_defs)
  moreover have "st8 (st16 syn_mss1500 24 49447) 22 128 = syn_mss1500_ttl"
    by (simp add: syn_mss1500_def syn_mss1500_ttl_def ld_st_defs)
  ultimately show ?thesis
    by (simp add: rewrite_ttl_def windows11_profile_fields bpf_l3_csum_replace_def bpf_htons_def)
qed

lemma egress_window: "rewrite_window windows11_profile syn_mss1500_ttl = Inr syn_mss1500_window"
proof -
  have "ihl syn_mss1500_ttl ETH_HLEN = 5" "ld16 syn_mss1500_ttl 48 = 4210"
    "ld16 syn_mss1500_ttl 50 = 22374" "length syn_mss1500_ttl = 58"
    by (simp_all add: syn_mss1500_ttl_def ihl_def ld16_def ld8_def)
  moreover have "csum_replace4 22374 4210 65535 = 26584"
    by (simp add: kernel_csum_defs)
  moreover have "ihl (st16 syn_mss1500_ttl 50 26584) ETH_HLEN = 5"
    by (simp add: syn_mss1500_ttl_def ihl_def ld_st_defs)
  moreover have "st16 (st16 syn_mss1500_ttl 50 26584) 48 65535 = syn_mss1500_window"
    by (simp add: syn_mss1500_ttl_def syn_mss1500_window_def ld_st_defs)
  ultimately show ?thesis
    by (simp add: rewrite_window_def windows11_profile_fields bpf_l4_csum_replace_def
        bpf_htons_def)
qed

lemma egress_mss:
  "rewrite_mss windows11_profile 24 0 2 4 (syn_mss1500_window, 54, 58) =
     Inr (syn_mss1500_egress, 54, 58)"
proof -
  have "ihl syn_mss1500_window ETH_HLEN = 5" "ld8 syn_mss1500_window 56 = 5"
    "ld8 syn_mss1500_window 57 = 220" "ld16 syn_mss1500_window 50 = 26584"
    "length syn_mss1500_window = 58"
    by (simp_all add: syn_mss1500_window_def ihl_def ld16_def ld8_def)
  moreover have "csum_replace4 26584 56325 46085 = 36824"
    by (simp add: kernel_csum_defs)
  moreover have "ihl (st16 syn_mss1500_window 50 36824) ETH_HLEN = 5"
    by (simp add: syn_mss1500_window_def ihl_def ld_st_defs)
  moreover have "st8 (st8 (st16 syn_mss1500_window 50 36824) 56 5) 57 180 = syn_mss1500_egress"
    by (simp add: syn_mss1500_window_def syn_mss1500_egress_def ld_st_defs)
  ultimately show ?thesis
    by (simp add: rewrite_mss_def windows11_profile_fields bpf_l4_csum_replace_def
        bpf_htons_def)
qed

lemma egress_walk:
  "egress_loop windows11_profile 24 (syn_mss1500_window, 54, 58) 0 = syn_mss1500_egress"
proof -
  have k: "ld8 syn_mss1500_window 54 = 2" "ld8 syn_mss1500_window 55 = 4"
    by (simp_all add: syn_mss1500_window_def ld8_def)
  have w: "rewrite_wscale windows11_profile 0 2 4 (syn_mss1500_egress, 54, 58) =
      Inr (syn_mss1500_egress, 54, 58)"
    by (simp add: rewrite_wscale_def)
  have 4: "egress_loop windows11_profile 24 (syn_mss1500_egress, 54, 58) 4 = syn_mss1500_egress"
    by (subst egress_loop.simps) simp
  show ?thesis
    by (subst egress_loop.simps) (simp add: k egress_mss w 4)
qed

theorem egress_lowers_mss_counterexample:
  "syn syn_mss1500 34 \<and>
   bpf_ntohs (ld16 syn_mss1500 56) = 1500 \<and>
   unat (prof_mss windows11_profile) = 1460 \<and>
   titan_tc_egress (Some (fingerprint_config 0)) windows11_profiles syn_mss1500 =
     (TC_ACT_OK, syn_mss1500_egress) \<and>
   bpf_ntohs (ld16 syn_mss1500_egress 56) = 1460"
proof -
  have f: "syn syn_mss1500 34" "bpf_ntohs (ld16 syn_mss1500 56) = 1500"
    by (simp_all add: syn_mss1500_def syn_def bpf_ntohs_def ld16_def ld8_def)
  have e: "bpf_ntohs (ld16 syn_mss1500_egress 56) = 1460"
    by (simp add: syn_mss1500_egress_def bpf_ntohs_def ld16_def ld8_def)
  have t: "ihl syn_mss1500_ttl ETH_HLEN = 5" "length syn_mss1500_ttl = 58"
    "syn syn_mss1500_ttl 34"
    by (simp_all add: syn_mss1500_ttl_def ihl_def syn_def ld8_def)
  have w: "ihl syn_mss1500_window ETH_HLEN = 5" "length syn_mss1500_window = 58"
    "doff syn_mss1500_window 34 = 6"
    by (simp_all add: syn_mss1500_window_def ihl_def doff_def ld8_def)
  have "rewrite_syn windows11_profile syn_mss1500_ttl = syn_mss1500_egress"
    by (simp add: rewrite_syn_def egress_window w egress_walk)
  moreover have "get_os_profile windows11_profiles (os_profile (fingerprint_config 0)) =
      Some windows11_profile"
    by (simp add: get_os_profile_def fingerprint_config_def windows11_profiles_def)
  ultimately have "titan_tc_egress (Some (fingerprint_config 0)) windows11_profiles syn_mss1500 =
      (TC_ACT_OK, syn_mss1500_egress)"
    by (simp add: titan_tc_egress_def syn_mss1500_facts bpf_htons_def egress_ttl t)
      (simp add: fingerprint_config_def)
  with f e show ?thesis
    by (simp add: windows11_profile_fields)
qed

section \<open>The MSS walk of tcp\_fingerprint\_xdp\<close>

lemma mss_loop_result:
  "mss_loop config opts2 hl p j = Inr q \<Longrightarrow>
   q = p \<or>
   (\<exists>k. opts2 + 2 \<le> k \<and> bpf_ntohs (ld16 p k) < unat (mss config) \<and>
        q = st16 p k (bpf_htons (unat (mss config))))"
proof (induction config opts2 hl p j rule: mss_loop.induct)
  case (1 config opts2 hl p j)
  let ?kind = "ld8 p (opts2 + j)" and ?len = "ld8 p (opts2 + j + 1)"
  let ?goal = "q = p \<or>
     (\<exists>k. opts2 + 2 \<le> k \<and> bpf_ntohs (ld16 p k) < unat (mss config) \<and>
          q = st16 p k (bpf_htons (unat (mss config))))"
  note eq = mss_loop.simps [of config opts2 hl p j]
  show ?case
  proof (cases "j < 40 \<and> opts2 + j < opts2 + (hl - 20) \<and> opts2 + j < length p \<and> ?kind \<noteq> 0")
    case False
    with "1.prems" eq show ?thesis by (auto split: if_splits)
  next
    case run: True
    show ?thesis
    proof (cases "?kind = 1")
      case True
      with run "1.prems" eq have "mss_loop config opts2 hl p (j + 1) = Inr q" by simp
      with "1.IH"(1) run True show ?thesis by simp
    next
      case not_nop: False
      show ?thesis
      proof (cases "?kind = 2 \<and> j + 3 < hl - 20")
        case True
        with run not_nop "1.prems" eq
        have "q = p \<or> (bpf_ntohs (ld16 p (opts2 + j + 2)) < unat (mss config) \<and>
            q = st16 p (opts2 + j + 2) (bpf_htons (unat (mss config))))"
          by (auto simp: Let_def split: if_splits)
        then show ?thesis
        proof
          assume "q = p" then show ?thesis by simp
        next
          assume "bpf_ntohs (ld16 p (opts2 + j + 2)) < unat (mss config) \<and>
            q = st16 p (opts2 + j + 2) (bpf_htons (unat (mss config)))"
          moreover have "opts2 + 2 \<le> opts2 + j + 2" by simp
          ultimately show ?thesis by blast
        qed
      next
        case not_mss: False
        show ?thesis
        proof (cases "opts2 + j + 1 < length p \<and> \<not> ?len < 2")
          case False
          with run not_nop not_mss "1.prems" eq show ?thesis
            by (auto simp: Let_def split: if_splits)
        next
          case True
          with run not_nop not_mss "1.prems" eq
          have "mss_loop config opts2 hl p (j + (?len - 1) + 1) = Inr q"
            by (auto simp: Let_def split: if_splits)
          moreover from run not_nop not_mss True
          have "\<not> (?kind = 2 \<and> j + 3 < hl - 20)" by simp
          ultimately show ?thesis
            using "1.IH"(2) [OF _ _ _ _ _ _ refl] run not_nop not_mss True by simp
        qed
      qed
    qed
  qed
qed

lemma ld8_less: "ld8 p k < 256"
proof -
  have "unat (p ! k) < 2 ^ LENGTH(8)" by (rule unsigned_less)
  then show ?thesis by (simp add: ld8_def)
qed

lemma ld16_less: "ld16 p k < 65536"
  using ld8_less [of p k] ld8_less [of p "k + 1"] by (simp add: ld16_def)

lemma ld16_mod_div: "ld16 p k mod 256 = ld8 p k" "ld16 p k div 256 = ld8 p (k + 1)"
  using ld8_less [of p k] by (simp_all add: ld16_def)

lemma bpf_ntohs_ld16: "bpf_ntohs (ld16 p k) = ld8 p k * 256 + ld8 p (k + 1)"
  using ld8_less [of p "k + 1"] by (simp add: bpf_ntohs_def ld16_mod_div)

lemma region_nth:
  assumes "take n (drop opts p) = R" and "k < length R"
  shows "p ! (opts + k) = R ! k" and "opts + k < length p" and "k < n"
proof -
  from assms have k: "k < n" "k < length p - opts" by auto
  then show "opts + k < length p" "k < n" by simp_all
  from assms(1) have "R ! k = take n (drop opts p) ! k" by simp
  also from k have "\<dots> = p ! (opts + k)" by simp
  finally show "p ! (opts + k) = R ! k" by simp
qed

lemma unat_byte_eq_numeral:
  "(unat (b :: byte) = 0) = (b = 0)" "(unat b = 1) = (b = 1)" "(unat b = 2) = (b = 2)"
  "(unat b = Suc 0) = (b = 1)"
proof -
  have "unat (0 :: byte) = 0" "unat (1 :: byte) = 1" "unat (2 :: byte) = 2" by simp_all
  then show "(unat b = 0) = (b = 0)" and one: "(unat b = 1) = (b = 1)"
    and "(unat b = 2) = (b = 2)"
    by (metis word_unat_eq_iff)+
  from one show "(unat b = Suc 0) = (b = 1)" by simp
qed

lemma mss_loop_skip:
  assumes "take (hl - 20) (drop opts p) = A @ concat (map encode pre) @ B"
    and "\<forall>x\<in>set pre. skippable x" and "hl \<le> 60"
  shows "mss_loop config opts hl p (length A) =
         mss_loop config opts hl p (length A + length (concat (map encode pre)))"
  using assms
proof (induction pre arbitrary: A)
  case Nil
  then show ?case by simp
next
  case (Cons x pre)
  let ?R = "A @ concat (map encode (x # pre)) @ B"
  let ?j = "length A"
  have R: "take (hl - 20) (drop opts p) = ?R" using Cons.prems(1) .
  have step: "take (hl - 20) (drop opts p) = (A @ encode x) @ concat (map encode pre) @ B"
    using Cons.prems(1) by simp
  have rest: "\<forall>x\<in>set pre. skippable x" using Cons.prems(2) by simp
  have ih: "mss_loop config opts hl p (length (A @ encode x)) =
      mss_loop config opts hl p (length (A @ encode x) + length (concat (map encode pre)))"
    by (rule Cons.IH [OF step rest Cons.prems(3)])
  have first: "?j < length ?R" by (cases x) simp_all
  note f = region_nth [OF R first]
  have j40: "?j < 40" using f(3) Cons.prems(3) by simp
  have one: "mss_loop config opts hl p ?j = mss_loop config opts hl p (?j + length (encode x))"
  proof (cases x)
    case NOP
    then have "?R ! ?j = 1" by simp
    with f(1) have kind: "ld8 p (opts + ?j) = 1" by (simp add: ld8_def)
    have cond: "(?j < 40 \<and> opts + ?j < opts + (hl - 20)) = True"
      "(\<not> opts + ?j < length p) = False" "(ld8 p (opts + ?j) = 0) = False"
      using f(2,3) j40 kind by simp_all
    from NOP show ?thesis
      by (subst mss_loop.simps) (simp only: cond kind if_True if_False, simp)
  next
    case (OPT kind payload)
    with Cons.prems(2) have k: "kind \<noteq> 0" "kind \<noteq> 1" "kind \<noteq> 2" "length payload \<le> 253"
      by simp_all
    from OPT have second: "?j + 1 < length ?R" by simp
    note s = region_nth [OF R second]
    from OPT have "?R ! ?j = kind" by simp
    with f(1) have kind: "ld8 p (opts + ?j) = unat kind" by (simp add: ld8_def)
    have e: "opts + ?j + 1 = opts + (?j + 1)" by simp
    from OPT have "?R ! (?j + 1) = of_nat (2 + length payload)"
      by (simp add: nth_append)
    then have "p ! (opts + (?j + 1)) = of_nat (2 + length payload)"
      by (simp only: s(1))
    then have "ld8 p (opts + ?j + 1) = unat (of_nat (2 + length payload) :: byte)"
      by (simp only: ld8_def e)
    also have "\<dots> = (2 + length payload) mod 2 ^ LENGTH(8)"
      by (rule unat_of_nat)
    also from k(4) have "\<dots> = 2 + length payload"
      by simp
    finally have len: "ld8 p (opts + ?j + 1) = 2 + length payload" .
    from s(2) have inb: "opts + ?j + 1 < length p" by (simp add: add.assoc)
    from kind k have nk: "ld8 p (opts + ?j) \<noteq> 0" "ld8 p (opts + ?j) \<noteq> 1"
      "ld8 p (opts + ?j) \<noteq> 2"
      by (simp_all add: unat_byte_eq_numeral)
    have cond: "(?j < 40 \<and> opts + ?j < opts + (hl - 20)) = True"
      "(\<not> opts + ?j < length p) = False" "(ld8 p (opts + ?j) = 0) = False"
      "(ld8 p (opts + ?j) = 1) = False" "(ld8 p (opts + ?j) = 2 \<and> ?j + 3 < hl - 20) = False"
      "(\<not> opts + ?j + 1 < length p) = False" "(2 + length payload < 2) = False"
      using f(2,3) j40 nk inb by simp_all
    from OPT show ?thesis
      by (subst mss_loop.simps) (simp only: cond len if_True if_False Let_def, simp)
  qed
  from one ih show ?case by (simp add: add.assoc)
qed

lemma mss_loop_found:
  assumes "take (hl - 20) (drop opts p) = A @ [2, 4, hi, lo] @ rest" and "hl \<le> 60"
  shows "mss_loop config opts hl p (length A) =
         Inr (if unat hi * 256 + unat lo < unat (mss config)
              then st16 p (opts + length A + 2) (bpf_htons (unat (mss config))) else p)"
proof -
  let ?R = "A @ [2, 4, hi, lo] @ rest"
  let ?j = "length A"
  have R: "take (hl - 20) (drop opts p) = ?R" using assms(1) .
  have i0: "?j < length ?R" and i2: "?j + 2 < length ?R" and i3: "?j + 3 < length ?R"
    by simp_all
  note f = region_nth [OF R i0] and h = region_nth [OF R i2] and l = region_nth [OF R i3]
  have j40: "?j < 40" using f(3) assms(2) by simp
  have "?R ! ?j = 2" by simp
  with f(1) have kind: "ld8 p (opts + ?j) = 2" by (simp add: ld8_def)
  have e: "opts + ?j + 2 = opts + (?j + 2)" "opts + ?j + 2 + 1 = opts + (?j + 3)"
    by simp_all
  have "?R ! (?j + 2) = hi" "?R ! (?j + 3) = lo" by (simp_all add: nth_append)
  then have "p ! (opts + (?j + 2)) = hi" "p ! (opts + (?j + 3)) = lo"
    by (simp_all only: h(1) l(1))
  then have "ld8 p (opts + ?j + 2) = unat hi" "ld8 p (opts + ?j + 2 + 1) = unat lo"
    by (simp only: ld8_def e(1), simp only: ld8_def e(2))
  then have "bpf_ntohs (ld16 p (opts + ?j + 2)) = unat hi * 256 + unat lo"
    by (simp only: bpf_ntohs_ld16)
  then have val: "bpf_ntohs (ld16 p (opts + ?j + 2)) = unat hi * 256 + unat lo" .
  have cond: "(?j < 40 \<and> opts + ?j < opts + (hl - 20)) = True"
    "(\<not> opts + ?j < length p) = False"
    "(ld8 p (opts + ?j) = 0) = False" "(ld8 p (opts + ?j) = 1) = False"
    "(ld8 p (opts + ?j) = 2 \<and> ?j + 3 < hl - 20) = True"
    "(opts + ?j + 2 + 2 \<le> length p) = True"
    using f(2,3) l(2,3) j40 kind by simp_all
  show ?thesis
    by (subst mss_loop.simps) (simp only: cond val if_True if_False Let_def, simp)
qed

lemma ld16_st16_same:
  assumes "k + 1 < length p"
  shows "ld16 (st16 p k v) k = v mod 65536"
proof -
  have lo: "ld8 (st16 p k v) k = v mod 256"
  proof -
    have "st16 p k v ! k = (of_nat (v mod 256) :: byte)"
      using assms by (simp add: st16_def st8_def)
    moreover have "unat (of_nat (v mod 256) :: byte) = (v mod 256) mod 2 ^ LENGTH(8)"
      by (rule unat_of_nat)
    ultimately show ?thesis by (simp add: ld8_def)
  qed
  have hi: "ld8 (st16 p k v) (k + 1) = (v div 256) mod 256"
  proof -
    have "st16 p k v ! (k + 1) = (of_nat (v div 256) :: byte)"
      using assms by (simp add: st16_def st8_def)
    moreover have "unat (of_nat (v div 256) :: byte) = (v div 256) mod 2 ^ LENGTH(8)"
      by (rule unat_of_nat)
    ultimately show ?thesis by (simp add: ld8_def)
  qed
  have "v mod (256 * 256) = 256 * (v div 256 mod 256) + v mod 256"
    by (rule mod_mult2_eq)
  with lo hi show ?thesis by (simp add: ld16_def)
qed

lemma bpf_htons_less: "bpf_htons v < 65536"
proof -
  have "v mod 256 < 256" "v div 256 mod 256 < 256" by simp_all
  then show ?thesis unfolding bpf_htons_def by linarith
qed

lemma bpf_ntohs_htons:
  assumes "v < 65536"
  shows "bpf_ntohs (bpf_htons v) = v"
proof -
  define a b where "a = v mod 256" and "b = v div 256"
  have b: "b < 256" using assms by (simp add: b_def)
  have a: "a < 256" by (simp add: a_def)
  have v: "v = b * 256 + a" by (simp add: a_def b_def)
  have h: "bpf_htons v = a * 256 + b" using b by (simp add: bpf_htons_def a_def b_def)
  have "(a * 256 + b) mod 256 = b" "(a * 256 + b) div 256 = a" using a b by simp_all
  then have "bpf_ntohs (a * 256 + b) = b * 256 + a" using a by (simp add: bpf_ntohs_def)
  with h v show ?thesis by simp
qed

lemma unat_mss_less: "unat (mss config) < 65536"
proof -
  have "unat (mss config) < 2 ^ LENGTH(16)" by (rule unsigned_less)
  then show ?thesis by simp
qed

lemma doff_le: "doff p tcph \<le> 15"
  using ld8_less [of p "tcph + 12"] by (simp add: doff_def)

text \<open>
  C3, as stated, fails on \<open>titan_tc_egress\<close> (above). C3, amended, for the MSS clamping
  of \<open>tcp_fingerprint_xdp\<close>, which runs when a configuration is present. On a packet
  without SYN it changes nothing. Whatever the packet, it either changes nothing or
  stores the configured MSS over a 16-bit value in the options that was smaller. On a
  SYN whose options, lying inside the buffer, are skippable options followed by an MSS
  option, with a positive MSS configured, the advertised MSS becomes the larger of the
  advertised and the configured value and no other byte changes.
\<close>

theorem mss_clamping_monotonic:
  "(\<not> syn p tcph \<longrightarrow> mss_clamping config tcph p = Inr p) \<and>
   (mss_clamping config tcph p = Inr q \<longrightarrow>
      q = p \<or>
      (\<exists>k. tcph + 22 \<le> k \<and> bpf_ntohs (ld16 p k) < unat (mss config) \<and>
           q = st16 p k (bpf_htons (unat (mss config))))) \<and>
   (syn p tcph \<and> 0 < unat (mss config) \<and> tcph + doff p tcph * 4 \<le> length p \<and>
    (\<forall>x\<in>set pre. skippable x) \<and>
    take (doff p tcph * 4 - 20) (drop (tcph + 20) p) =
      concat (map encode pre) @ [2, 4, hi, lo] @ rest \<longrightarrow>
      (\<exists>r. mss_clamping config tcph p = Inr r \<and>
           bpf_ntohs (ld16 r (tcph + 20 + length (concat (map encode pre)) + 2)) =
             max (unat hi * 256 + unat lo) (unat (mss config)) \<and>
           unchanged_outside
             {tcph + 20 + length (concat (map encode pre)) + 2,
              tcph + 20 + length (concat (map encode pre)) + 3} p r))"
proof (intro conjI impI)
  assume "\<not> syn p tcph"
  then show "mss_clamping config tcph p = Inr p"
    by (simp add: mss_clamping_def)
next
  assume q: "mss_clamping config tcph p = Inr q"
  show "q = p \<or>
      (\<exists>k. tcph + 22 \<le> k \<and> bpf_ntohs (ld16 p k) < unat (mss config) \<and>
           q = st16 p k (bpf_htons (unat (mss config))))"
  proof (cases "mss_clamping config tcph p = mss_loop config (tcph + 20) (doff p tcph * 4 mod 256) p 0")
    case True
    with q have "mss_loop config (tcph + 20) (doff p tcph * 4 mod 256) p 0 = Inr q" by simp
    from mss_loop_result [OF this] show ?thesis by (simp add: add.assoc add.commute)
  next
    case False
    then have "mss_clamping config tcph p = Inr p"
      by (simp add: mss_clamping_def Let_def split: if_splits)
    with q show ?thesis by simp
  qed
next
  assume a: "syn p tcph \<and> 0 < unat (mss config) \<and> tcph + doff p tcph * 4 \<le> length p \<and>
    (\<forall>x\<in>set pre. skippable x) \<and>
    take (doff p tcph * 4 - 20) (drop (tcph + 20) p) =
      concat (map encode pre) @ [2, 4, hi, lo] @ rest"
  let ?hl = "doff p tcph * 4" and ?j = "length (concat (map encode pre))"
  let ?k = "tcph + 20 + ?j + 2" and ?m = "unat (mss config)"
  let ?old = "unat hi * 256 + unat lo"
  let ?r = "if ?old < ?m then st16 p ?k (bpf_htons ?m) else p"
  from a have region: "take (?hl - 20) (drop (tcph + 20) p) =
      [] @ concat (map encode pre) @ [2, 4, hi, lo] @ rest" by simp
  from a have region': "take (?hl - 20) (drop (tcph + 20) p) =
      concat (map encode pre) @ [2, 4, hi, lo] @ rest" by simp
  have hl60: "?hl \<le> 60" using doff_le [of p tcph] by simp
  have hl20: "20 < ?hl"
  proof (rule ccontr)
    assume "\<not> 20 < ?hl"
    then have "take (?hl - 20) (drop (tcph + 20) p) = []" by simp
    with region' show False by simp
  qed
  have hlmod: "?hl mod 256 = ?hl" using hl60 by simp
  have skip: "mss_loop config (tcph + 20) ?hl p (length ([] :: byte list)) =
      mss_loop config (tcph + 20) ?hl p (length ([] :: byte list) + ?j)"
    using a by (intro mss_loop_skip [OF region _ hl60]) simp
  have found: "mss_loop config (tcph + 20) ?hl p ?j = Inr ?r"
    by (rule mss_loop_found [OF region' hl60])
  from skip found have loop: "mss_loop config (tcph + 20) ?hl p 0 = Inr ?r" by simp
  from a hl20 have r: "mss_clamping config tcph p = Inr ?r"
    by (simp add: mss_clamping_def Let_def hlmod loop)
  have i3: "?j + 3 < length (concat (map encode pre) @ [2, 4, hi, lo] @ rest)"
    and i2: "?j + 2 < length (concat (map encode pre) @ [2, 4, hi, lo] @ rest)" by simp_all
  note h = region_nth [OF region' i2] and l = region_nth [OF region' i3]
  have e: "tcph + 20 + ?j + 2 = tcph + 20 + (?j + 2)" "?k + 1 = tcph + 20 + (?j + 3)"
    by simp_all
  have inb: "?k + 1 < length p" using l(2) by (simp only: e)
  have "(concat (map encode pre) @ [2, 4, hi, lo] @ rest) ! (?j + 2) = hi"
    "(concat (map encode pre) @ [2, 4, hi, lo] @ rest) ! (?j + 3) = lo"
    by (simp_all add: nth_append)
  then have "p ! (tcph + 20 + (?j + 2)) = hi" "p ! (tcph + 20 + (?j + 3)) = lo"
    by (simp_all only: h(1) l(1))
  then have "ld8 p ?k = unat hi" "ld8 p (?k + 1) = unat lo"
    by (simp only: ld8_def e(1), simp only: ld8_def e(2))
  then have old: "bpf_ntohs (ld16 p ?k) = ?old"
    by (simp only: bpf_ntohs_ld16)
  have val: "bpf_ntohs (ld16 ?r ?k) = max ?old ?m"
  proof (cases "?old < ?m")
    case True
    have "ld16 (st16 p ?k (bpf_htons ?m)) ?k = bpf_htons ?m mod 65536"
      by (rule ld16_st16_same [OF inb])
    also have "\<dots> = bpf_htons ?m" using bpf_htons_less [of ?m] by simp
    finally have "bpf_ntohs (ld16 (st16 p ?k (bpf_htons ?m)) ?k) = ?m"
      by (simp only: bpf_ntohs_htons [OF unat_mss_less])
    with True show ?thesis by (simp add: max_def)
  next
    case False
    with old show ?thesis by (simp add: max_def)
  qed
  have "unchanged_outside {?k, ?k + 1} p ?r"
    using unchanged_st16 [of ?k p] unchanged_refl [of "{?k, ?k + 1}" p] by simp
  moreover have "tcph + 20 + ?j + 3 = ?k + 1" by simp
  ultimately have frame: "unchanged_outside {?k, tcph + 20 + ?j + 3} p ?r"
    by (simp only:)
  from r val frame show "\<exists>r. mss_clamping config tcph p = Inr r \<and>
      bpf_ntohs (ld16 r ?k) = max ?old ?m \<and> unchanged_outside {?k, tcph + 20 + ?j + 3} p r"
    by blast
qed

theorem mss_clamping_monotonic_witness:
  "mss_clamping windows_config 34 ack_with_timestamp = Inr ack_with_timestamp \<and>
   (\<exists>r k. mss_clamping windows_config 34 syn_wscale_mss1400 = Inr r \<and>
      bpf_ntohs (ld16 syn_wscale_mss1400 60) = 1400 \<and> bpf_ntohs (ld16 r 60) = 1460 \<and>
      56 \<le> k \<and> r = st16 syn_wscale_mss1400 k (bpf_htons 1460))"
proof -
  have ns: "\<not> syn ack_with_timestamp 34"
    by (rule ack_with_timestamp_facts)
  have f: "syn syn_wscale_mss1400 34" "doff syn_wscale_mss1400 34 = 7"
    "length syn_wscale_mss1400 = 62" "bpf_ntohs (ld16 syn_wscale_mss1400 60) = 1400"
    by (simp_all add: syn_wscale_mss1400_def syn_def doff_def bpf_ntohs_def ld16_def ld8_def)
  have region: "take (doff syn_wscale_mss1400 34 * 4 - 20) (drop (34 + 20) syn_wscale_mss1400) =
      concat (map encode [NOP, OPT 3 [7]]) @ [2, 4, 5, 120] @ []"
    by (simp add: f(2)) (simp add: syn_wscale_mss1400_def)
  have sk: "\<forall>x\<in>set [NOP, OPT 3 [7]]. skippable x" by simp
  from mss_clamping_monotonic
    [of syn_wscale_mss1400 34 windows_config _ "[NOP, OPT 3 [7]]" 5 120 "[]"]
    f region sk
  obtain r where r: "mss_clamping windows_config 34 syn_wscale_mss1400 = Inr r"
    "bpf_ntohs (ld16 r 60) = 1460"
    by (auto simp: windows_config_fields)
  from r(2) f(4) have "r \<noteq> syn_wscale_mss1400" by auto
  moreover note mss_clamping_monotonic
    [of syn_wscale_mss1400 34 windows_config r "[]" 0 0 "[]", THEN conjunct2, THEN conjunct1,
      THEN mp, OF r(1)]
  ultimately obtain k where "56 \<le> k" "r = st16 syn_wscale_mss1400 k (bpf_htons 1460)"
    by (auto simp: windows_config_fields)
  with r f(4) mss_clamping_monotonic [of ack_with_timestamp 34 windows_config] ns
  show ?thesis by blast
qed

end
